theory Spec2Isabelle
  imports Complex_Main "HOL-Library.Sublist" "HOL-Library.Multiset"
begin

section \<open>News Pulse API: the program of app.js, embedded\<close>

text \<open>
  The service is one JavaScript module of route handlers. The pure helpers
  (\<open>dedupeByLink\<close>, \<open>toRomanHindi\<close>, the scoring expression of \<open>/api/breaking\<close>) are
  embedded as HOL functions; the handlers that touch the process-wide
  \<open>studioBuffer\<close> take the buffer as an argument and return it updated; what a
  handler answers is a status code (and a body where a property speaks of it).

  JavaScript strings that are processed unit by unit (titles, captions, text to
  transliterate) are lists of UTF-16 code units; strings that are only compared
  (links, URLs, category names, file ids, header values) are HOL strings.
  JavaScript numbers that are computed with (ages and scores) are doubles, held
  as rationals, with the rounding of every operation written out.
\<close>

type_synonym jsstring = "nat list"

definition ustr :: "string \<Rightarrow> jsstring" where
  "ustr s = map of_char s"

subsection \<open>Items of the feed and the dedup filter\<close>

text \<open>
  The object pushed by \<open>/api/feed\<close> for one syndication entry (app.js, 131-139).
  A field the parser did not deliver is \<open>undefined\<close> in the source and \<open>None\<close> here.
\<close>

record feed_item =
  title :: "jsstring option"
  link :: "string option"
  summary :: jsstring
  bullets :: "jsstring list"
  pubDate :: "string option"
  source :: string
  image :: "string option"

text \<open>
  \<open>items.filter(i => s.has(i.link) ? false : (s.add(i.link), true))\<close>: the callback
  reads and extends the set \<open>s\<close> while \<open>filter\<close> walks the array from the left.
  The set is threaded through the recursion.
\<close>

fun dedupe_filter :: "string option set \<Rightarrow> feed_item list \<Rightarrow> feed_item list" where
  "dedupe_filter s [] = []"
| "dedupe_filter s (i # items) =
     (if link i \<in> s then dedupe_filter s items
      else i # dedupe_filter (insert (link i) s) items)"

definition dedupeByLink :: "feed_item list \<Rightarrow> feed_item list" where
  "dedupeByLink items = dedupe_filter {} items"

text \<open>A concrete item, for evaluating the filter on explicit inputs.\<close>

definition example_item :: "string \<Rightarrow> string \<Rightarrow> feed_item" where
  "example_item t l =
     \<lparr>title = Some (ustr t), link = Some l, summary = [], bullets = [], pubDate = None,
      source = ''example.org'', image = None\<rparr>"

subsection \<open>The studio buffer\<close>

text \<open>
  \<open>const studioBuffer = []\<close> is created empty when the module loads and lives as
  long as the process; \<open>const studioMax = 50\<close>. The only code that changes it is
  \<open>push = (obj) => { studioBuffer.unshift(obj);
     if (studioBuffer.length > studioMax) studioBuffer.pop(); }\<close>,
  a closure of the webhook handler. The buffer is passed in and returned.
\<close>

definition studioMax :: nat where
  "studioMax = 50"

definition push :: "'a \<Rightarrow> 'a list \<Rightarrow> 'a list" where
  "push obj studioBuffer =
     (let unshifted = obj # studioBuffer
      in if length unshifted > studioMax then butlast unshifted else unshifted)"

text \<open>A sequence of pushes, the first element of the list pushed first.\<close>

fun push_all :: "'a list \<Rightarrow> 'a list \<Rightarrow> 'a list" where
  "push_all studioBuffer [] = studioBuffer"
| "push_all studioBuffer (obj # objs) = push_all (push obj studioBuffer) objs"

subsection \<open>Deliveries of the messaging platform\<close>

text \<open>
  The body of a delivery, at the types of the platform's Bot API. Only the fields
  the handler reads are kept. \<open>chat_type\<close> is \<open>ch?.chat?.type\<close>: \<open>None\<close> when the
  chat or its type is absent. \<open>photo\<close> is the list of size variants of one picture,
  \<open>video\<close> a single attachment; \<open>msg_text\<close> is the field \<open>text\<close>.
\<close>

record tg_file =
  file_id :: string

record tg_message =
  message_id :: int
  chat_type :: "string option"
  photo :: "tg_file list option"
  video :: "tg_file option"
  msg_text :: "jsstring option"
  caption :: "jsstring option"
  date :: int

record tg_update =
  channel_post :: "tg_message option"
  message :: "tg_message option"

text \<open>
  A parsed body whose fields have the Bot API's types. On such a body no statement
  of the handler's \<open>try\<close> block throws. Bodies of any other form, and bodies that
  the body parser rejects, are the subject of the route model further down.
\<close>

datatype request_body = Update tg_update

text \<open>The object handed to \<open>push\<close> (fields \<open>id, type, file_id, title, caption, date, tags\<close>).\<close>

record studio_post =
  post_id :: int
  post_type :: string
  post_file_id :: "string option"
  post_title :: jsstring
  post_caption :: jsstring
  post_date :: int
  post_tags :: "string list"

text \<open>Truthiness of a string that may be \<open>undefined\<close>: absent and empty are falsy.\<close>

definition truthy :: "'a list option \<Rightarrow> bool" where
  "truthy v = (case v of None \<Rightarrow> False | Some s \<Rightarrow> s \<noteq> [])"

text \<open>
  \<open>let type = "text", file_id = null;
   if (ch.photo?.length) { type = "photo"; file_id = ch.photo.slice(-1)[0].file_id; }
   if (ch.video) { type = "video"; file_id = ch.video.file_id; }\<close>
  Two statements in a row, each overwriting both variables.
\<close>

definition media :: "tg_message \<Rightarrow> string \<times> string option" where
  "media m =
     (let r = (''text'', None);
          r = (case photo m of
                 Some (p # ps) \<Rightarrow> (''photo'', Some (file_id (last (p # ps))))
               | _ \<Rightarrow> r);
          r = (case video m of
                 Some v \<Rightarrow> (''video'', Some (file_id v))
               | None \<Rightarrow> r)
      in r)"

text \<open>\<open>const text = (ch.text || ch.caption || "")\<close>\<close>

definition body_text :: "tg_message \<Rightarrow> jsstring" where
  "body_text m =
     (case msg_text m of
        Some (c # cs) \<Rightarrow> c # cs
      | _ \<Rightarrow> (case caption m of Some (c # cs) \<Rightarrow> c # cs | _ \<Rightarrow> []))"

text \<open>
  \<open>text.split("\n")[0]?.slice(0, 100) || ""\<close>: the units before the first line feed
  (code unit 10), cut after 100 units.
\<close>

definition first_line_100 :: "jsstring \<Rightarrow> jsstring" where
  "first_line_100 t = take 100 (takeWhile (\<lambda>c. c \<noteq> 10) t)"

text \<open>
  The channel branch and the private branch build the same object, from \<open>ch\<close> and
  from \<open>msg\<close>.
\<close>

definition make_post :: "tg_message \<Rightarrow> studio_post" where
  "make_post m =
     \<lparr>post_id = message_id m, post_type = fst (media m), post_file_id = snd (media m),
      post_title = first_line_100 (body_text m), post_caption = body_text m,
      post_date = date m, post_tags = []\<rparr>"

text \<open>\<open>if (ch?.chat?.type === "channel") ... else if (msg?.chat?.type === "private") ...\<close>\<close>

definition channel_branch :: "tg_update \<Rightarrow> tg_message option" where
  "channel_branch u =
     (case channel_post u of
        Some ch \<Rightarrow> if chat_type ch = Some ''channel'' then Some ch else None
      | None \<Rightarrow> None)"

definition private_branch :: "tg_update \<Rightarrow> tg_message option" where
  "private_branch u =
     (case message u of
        Some msg \<Rightarrow> if chat_type msg = Some ''private'' then Some msg else None
      | None \<Rightarrow> None)"

text \<open>
  The callback of \<open>app.post("/telegram/webhook", ...)\<close> on a body of the Bot API's
  types. \<open>ADMIN_KEY\<close> is \<open>process.env.ADMIN_KEY\<close>, \<open>secret\<close> the header
  \<open>x-telegram-bot-api-secret-token\<close>. The result is the status sent and the buffer
  afterwards. The whole route, with the body parser in front of the callback and
  a body of any form, is \<open>webhook_route\<close> below; on bodies of these types the two
  agree (\<open>webhook_route_enc\<close>).
\<close>

definition telegram_webhook ::
  "string option \<Rightarrow> string option \<Rightarrow> request_body \<Rightarrow> studio_post list
     \<Rightarrow> nat \<times> studio_post list" where
  "telegram_webhook ADMIN_KEY secret req_body studioBuffer =
     (if truthy ADMIN_KEY \<and> secret \<noteq> ADMIN_KEY then (401, studioBuffer)
      else case req_body of
        Update u \<Rightarrow>
          (case channel_branch u of
             Some ch \<Rightarrow> (200, push (make_post ch) studioBuffer)
           | None \<Rightarrow>
               (case private_branch u of
                  Some msg \<Rightarrow> (200, push (make_post msg) studioBuffer)
                | None \<Rightarrow> (200, studioBuffer))))"

text \<open>A channel broadcast carrying every field, for evaluating the handler.\<close>

definition example_message :: tg_message where
  "example_message =
     \<lparr>message_id = 7, chat_type = Some ''channel'',
      photo = Some [\<lparr>file_id = ''small''\<rparr>, \<lparr>file_id = ''large''\<rparr>],
      video = Some \<lparr>file_id = ''clip''\<rparr>,
      msg_text = Some (ustr ''from text''), caption = Some (ustr ''from caption''),
      date = 1700000000\<rparr>"

subsection \<open>The webhook route on any request body\<close>

text \<open>
  The route has the JSON body parser in front of the callback (\<open>app.use(express.json(...))\<close>
  and again \<open>express.json()\<close> in \<open>app.post\<close>). A body the parser rejects (broken
  JSON, a body over the size limit) never reaches the callback: the parser calls
  \<open>next(err)\<close>, and the error handler at the end of the module answers
  \<open>res.status(500).json({ error: "server_error" })\<close>. Otherwise the callback runs on
  the parsed value, which may be any JSON value; a request without a JSON body
  is the empty object (\<open>req.body || {}\<close>).

  A parsed JSON value. An object is the list of its own properties, each name
  once. \<open>undefined\<close>, which is no JSON value but the result of reading a missing
  property, is \<open>None\<close> in \<open>jsvalue option\<close>.
\<close>

datatype jsvalue =
    JNull
  | JBool bool
  | JNum rat
  | JStr jsstring
  | JArr "jsvalue list"
  | JObj "(string \<times> jsvalue) list"

datatype parsed_body = Rejected | Parsed jsvalue

text \<open>
  The only exception the callback can raise on such values: a property read on
  \<open>null\<close> or \<open>undefined\<close>, or a call of something that is not a function.
\<close>

datatype exn = TypeError

text \<open>
  The object handed to \<open>push\<close>, with the fields that are copied from the body kept
  as they come. \<open>file_id\<close> starts as \<open>null\<close>.
\<close>

record js_post =
  jp_id :: "jsvalue option"
  jp_type :: string
  jp_file_id :: "jsvalue option"
  jp_title :: jsstring
  jp_caption :: jsstring
  jp_date :: "jsvalue option"
  jp_tags :: "string list"

text \<open>
  \<open>v.k\<close> on a value that is neither \<open>null\<close> nor \<open>undefined\<close>, for the data properties
  the callback reads (\<open>channel_post\<close>, \<open>message\<close>, \<open>chat\<close>, \<open>type\<close>, \<open>photo\<close>, \<open>length\<close>,
  \<open>video\<close>, \<open>file_id\<close>, \<open>text\<close>, \<open>caption\<close>, \<open>message_id\<close>, \<open>date\<close>): an object has its own
  properties (none of these names is inherited), an array and a string have
  \<open>length\<close>, a number and a boolean have none of them. \<open>js_get_opt\<close> is \<open>v?.k\<close>:
  \<open>undefined\<close> when \<open>v\<close> is \<open>null\<close> or \<open>undefined\<close>.
\<close>

fun js_get :: "jsvalue \<Rightarrow> string \<Rightarrow> jsvalue option" where
  "js_get (JObj kvs) k = map_of kvs k"
| "js_get (JArr xs) k = (if k = ''length'' then Some (JNum (of_nat (length xs))) else None)"
| "js_get (JStr s) k = (if k = ''length'' then Some (JNum (of_nat (length s))) else None)"
| "js_get (JNum n) k = None"
| "js_get (JBool b) k = None"
| "js_get JNull k = None"

fun js_get_opt :: "jsvalue option \<Rightarrow> string \<Rightarrow> jsvalue option" where
  "js_get_opt None k = None"
| "js_get_opt (Some v) k = js_get v k"

text \<open>Truthiness, as \<open>if\<close> and \<open>||\<close> test it.\<close>

fun truthy_js :: "jsvalue option \<Rightarrow> bool" where
  "truthy_js None = False"
| "truthy_js (Some JNull) = False"
| "truthy_js (Some (JBool b)) = b"
| "truthy_js (Some (JNum n)) = (n \<noteq> 0)"
| "truthy_js (Some (JStr s)) = (s \<noteq> [])"
| "truthy_js (Some (JArr xs)) = True"
| "truthy_js (Some (JObj kvs)) = True"

text \<open>
  \<open>ch.photo.slice(-1)[0].file_id\<close>, evaluated when \<open>ch.photo?.length\<close> is truthy. An
  array gives its last element, and reading \<open>file_id\<close> on a \<open>null\<close> element throws;
  a string gives its last unit, which has no \<open>file_id\<close>; an object has no callable
  \<open>slice\<close> (a JSON value is never a function), so the call throws.
\<close>

fun photo_file_id :: "jsvalue \<Rightarrow> exn + jsvalue option" where
  "photo_file_id (JArr xs) =
     (if xs = [] then Inl TypeError
      else case last xs of JNull \<Rightarrow> Inl TypeError | e \<Rightarrow> Inr (js_get e ''file_id''))"
| "photo_file_id (JStr s) = (if s = [] then Inl TypeError else Inr None)"
| "photo_file_id (JObj kvs) = Inl TypeError"
| "photo_file_id (JNum n) = Inl TypeError"
| "photo_file_id (JBool b) = Inl TypeError"
| "photo_file_id JNull = Inl TypeError"

text \<open>
  The two \<open>if\<close> statements that set \<open>type\<close> and \<open>file_id\<close>. The first may throw; then
  the second is not reached.
\<close>

definition media_js :: "jsvalue \<Rightarrow> exn + string \<times> jsvalue option" where
  "media_js ch =
     (case (case js_get ch ''photo'' of
              None \<Rightarrow> Inr (''text'', Some JNull)
            | Some p \<Rightarrow>
                if truthy_js (js_get p ''length'')
                then (case photo_file_id p of
                        Inl e \<Rightarrow> Inl e
                      | Inr f \<Rightarrow> Inr (''photo'', f))
                else Inr (''text'', Some JNull)) of
        Inl e \<Rightarrow> Inl e
      | Inr r \<Rightarrow>
          (case js_get ch ''video'' of
             None \<Rightarrow> Inr r
           | Some v \<Rightarrow> if truthy_js (Some v) then Inr (''video'', js_get v ''file_id'') else Inr r))"

text \<open>\<open>(ch.text || ch.caption || "")\<close>: the first truthy operand, else the empty string.\<close>

definition text_js :: "jsvalue \<Rightarrow> jsvalue" where
  "text_js ch =
     (case js_get ch ''text'' of
        None \<Rightarrow> (case js_get ch ''caption'' of
                   None \<Rightarrow> JStr []
                 | Some c \<Rightarrow> if truthy_js (Some c) then c else JStr [])
      | Some t \<Rightarrow>
          if truthy_js (Some t) then t
          else (case js_get ch ''caption'' of
                  None \<Rightarrow> JStr []
                | Some c \<Rightarrow> if truthy_js (Some c) then c else JStr []))"

text \<open>
  The argument of \<open>push\<close>. \<open>text.split("\n")\<close> is a call of \<open>undefined\<close>, or of a JSON
  value, unless \<open>text\<close> is a string: a truthy \<open>text\<close> or \<open>caption\<close> that is a number, a
  boolean, an array or an object makes it throw. All of this is evaluated before
  \<open>push\<close> runs.
\<close>

definition make_post_js :: "jsvalue \<Rightarrow> exn + js_post" where
  "make_post_js ch =
     (case media_js ch of
        Inl e \<Rightarrow> Inl e
      | Inr (ty, fid) \<Rightarrow>
          (case text_js ch of
             JStr s \<Rightarrow>
               Inr \<lparr>jp_id = js_get ch ''message_id'', jp_type = ty, jp_file_id = fid,
                    jp_title = first_line_100 s, jp_caption = s, jp_date = js_get ch ''date'',
                    jp_tags = []\<rparr>
           | _ \<Rightarrow> Inl TypeError))"

text \<open>
  \<open>update.channel_post\<close> with \<open>ch?.chat?.type === "channel"\<close>, and the same for
  \<open>update.message\<close> and \<open>"private"\<close>: the message object when the test holds.
\<close>

definition branch :: "jsvalue \<Rightarrow> string \<Rightarrow> string \<Rightarrow> jsvalue option" where
  "branch update field ty =
     (case js_get update field of
        None \<Rightarrow> None
      | Some m \<Rightarrow>
          if js_get_opt (js_get m ''chat'') ''type'' = Some (JStr (ustr ty)) then Some m else None)"

text \<open>
  The callback on any parsed body: the secret check, then the channel branch, else
  the private branch; \<open>catch { res.sendStatus(200); }\<close> answers when a branch throws.
\<close>

definition webhook_handler ::
  "string option \<Rightarrow> string option \<Rightarrow> jsvalue \<Rightarrow> js_post list \<Rightarrow> nat \<times> js_post list" where
  "webhook_handler ADMIN_KEY secret update studioBuffer =
     (if truthy ADMIN_KEY \<and> secret \<noteq> ADMIN_KEY then (401, studioBuffer)
      else case branch update ''channel_post'' ''channel'' of
        Some ch \<Rightarrow>
          (case make_post_js ch of
             Inl e \<Rightarrow> (200, studioBuffer)
           | Inr p \<Rightarrow> (200, push p studioBuffer))
      | None \<Rightarrow>
          (case branch update ''message'' ''private'' of
             Some msg \<Rightarrow>
               (case make_post_js msg of
                  Inl e \<Rightarrow> (200, studioBuffer)
                | Inr p \<Rightarrow> (200, push p studioBuffer))
           | None \<Rightarrow> (200, studioBuffer)))"

text \<open>The route: the body parser, then the callback.\<close>

definition webhook_route ::
  "string option \<Rightarrow> string option \<Rightarrow> parsed_body \<Rightarrow> js_post list \<Rightarrow> nat \<times> js_post list" where
  "webhook_route ADMIN_KEY secret body studioBuffer =
     (case body of
        Rejected \<Rightarrow> (500, studioBuffer)
      | Parsed update \<Rightarrow> webhook_handler ADMIN_KEY secret update studioBuffer)"

text \<open>A channel broadcast whose \<open>text\<close> field is the given value, for evaluation.\<close>

definition example_body :: "jsvalue \<Rightarrow> jsvalue" where
  "example_body t =
     JObj [(''update_id'', JNum 1),
           (''channel_post'',
              JObj [(''message_id'', JNum 7), (''date'', JNum 1700000000),
                    (''chat'', JObj [(''id'', JNum (- 100)), (''type'', JStr (ustr ''channel''))]),
                    (''text'', t)])]"

text \<open>The message the callback works on, if the body has one of the two shapes.\<close>

definition recognised :: "jsvalue \<Rightarrow> jsvalue option" where
  "recognised update =
     (case branch update ''channel_post'' ''channel'' of
        Some ch \<Rightarrow> Some ch
      | None \<Rightarrow> branch update ''message'' ''private'')"

text \<open>
  A body of the Bot API's types written as the JSON value the parser delivers,
  and a stored item of the typed model as the object the callback pushes.
\<close>

definition enc_file :: "tg_file \<Rightarrow> jsvalue" where
  "enc_file f = JObj [(''file_id'', JStr (ustr (file_id f)))]"

definition enc_opt :: "string \<Rightarrow> ('a \<Rightarrow> jsvalue) \<Rightarrow> 'a option \<Rightarrow> (string \<times> jsvalue) list" where
  "enc_opt k enc v = (case v of None \<Rightarrow> [] | Some x \<Rightarrow> [(k, enc x)])"

definition enc_message :: "tg_message \<Rightarrow> jsvalue" where
  "enc_message m =
     JObj ([(''message_id'', JNum (of_int (message_id m))), (''date'', JNum (of_int (date m)))]
           @ enc_opt ''chat'' (\<lambda>t. JObj [(''type'', JStr (ustr t))]) (chat_type m)
           @ enc_opt ''photo'' (\<lambda>ps. JArr (map enc_file ps)) (photo m)
           @ enc_opt ''video'' enc_file (video m)
           @ enc_opt ''text'' JStr (msg_text m)
           @ enc_opt ''caption'' JStr (caption m))"

definition enc_update :: "tg_update \<Rightarrow> jsvalue" where
  "enc_update u =
     JObj (enc_opt ''channel_post'' enc_message (channel_post u)
           @ enc_opt ''message'' enc_message (message u))"

definition enc_post :: "studio_post \<Rightarrow> js_post" where
  "enc_post p =
     \<lparr>jp_id = Some (JNum (of_int (post_id p))), jp_type = post_type p,
      jp_file_id = (case post_file_id p of None \<Rightarrow> Some JNull | Some f \<Rightarrow> Some (JStr (ustr f))),
      jp_title = post_title p, jp_caption = post_caption p,
      jp_date = Some (JNum (of_int (post_date p))), jp_tags = post_tags p\<rparr>"

subsection \<open>Transliteration\<close>

text \<open>
  \<open>out.replace(re, rep)\<close> for a global regular expression that is an alternation of
  literal, non-empty code-unit sequences (every pattern of \<open>toRomanHindi\<close> is one;
  no replacement contains a dollar sign): scanning from the left, the first
  alternative that matches at the current position is replaced and scanning goes
  on behind the match; otherwise the unit is copied.
\<close>

fun replace_all :: "jsstring list \<Rightarrow> jsstring \<Rightarrow> jsstring \<Rightarrow> jsstring" where
  "replace_all alts rep [] = []"
| "replace_all alts rep (c # cs) =
     (case find (\<lambda>p. p \<noteq> [] \<and> prefix p (c # cs)) alts of
        Some p \<Rightarrow> rep @ replace_all alts rep (drop (length p - 1) cs)
      | None \<Rightarrow> c # replace_all alts rep cs)"

text \<open>
  The table \<open>map\<close> of \<open>toRomanHindi\<close>, in the order of the source: three conjuncts,
  the independent vowels, the consonants (\<open>U+0936 | U+0937\<close> is the one alternation),
  anusvara, candrabindu, visarga, and the nukta, which is deleted.
\<close>

definition translit_map :: "(jsstring list \<times> jsstring) list" where
  "translit_map =
    [([[0x915, 0x94D, 0x937]], ustr ''ksh''), ([[0x91C, 0x94D, 0x91E]], ustr ''gya''),
     ([[0x924, 0x94D, 0x930]], ustr ''tra''),
     ([[0x905]], ustr ''a''), ([[0x906]], ustr ''aa''), ([[0x907]], ustr ''i''),
     ([[0x908]], ustr ''ee''), ([[0x909]], ustr ''u''), ([[0x90A]], ustr ''oo''),
     ([[0x90F]], ustr ''e''), ([[0x910]], ustr ''ai''), ([[0x913]], ustr ''o''),
     ([[0x914]], ustr ''au''),
     ([[0x915]], ustr ''k''), ([[0x916]], ustr ''kh''), ([[0x917]], ustr ''g''),
     ([[0x918]], ustr ''gh''), ([[0x91A]], ustr ''ch''), ([[0x91B]], ustr ''chh''),
     ([[0x91C]], ustr ''j''), ([[0x91D]], ustr ''jh''), ([[0x91F]], ustr ''t''),
     ([[0x920]], ustr ''th''), ([[0x921]], ustr ''d''), ([[0x922]], ustr ''dh''),
     ([[0x923]], ustr ''n''),
     ([[0x924]], ustr ''t''), ([[0x925]], ustr ''th''), ([[0x926]], ustr ''d''),
     ([[0x927]], ustr ''dh''), ([[0x928]], ustr ''n''),
     ([[0x92A]], ustr ''p''), ([[0x92B]], ustr ''ph''), ([[0x92C]], ustr ''b''),
     ([[0x92D]], ustr ''bh''), ([[0x92E]], ustr ''m''),
     ([[0x92F]], ustr ''y''), ([[0x930]], ustr ''r''), ([[0x932]], ustr ''l''),
     ([[0x935]], ustr ''v''), ([[0x936], [0x937]], ustr ''sh''), ([[0x938]], ustr ''s''),
     ([[0x939]], ustr ''h''),
     ([[0x902]], ustr ''n''), ([[0x901]], ustr ''n''), ([[0x903]], ustr ''h''),
     ([[0x93C]], [])]"

text \<open>\<open>let out = str; for (const [re,rep] of map) out = out.replace(re,rep);\<close>\<close>

definition apply_map :: "jsstring \<Rightarrow> jsstring" where
  "apply_map str = foldl (\<lambda>out (re, rep). replace_all re rep out) str translit_map"

text \<open>
  \<open>return out.replace(/U+0939 U+0948/g,"hai").replace(/U+0928 U+0939 U+0940 U+0902/g,"nahi")\<close>:
  the two whole-word patterns are applied to the result of the loop.
\<close>

definition toRomanHindi :: "jsstring \<Rightarrow> jsstring" where
  "toRomanHindi str =
     replace_all [[0x928, 0x939, 0x940, 0x902]] (ustr ''nahi'')
       (replace_all [[0x939, 0x948]] (ustr ''hai'') (apply_map str))"

subsection \<open>The source table and the feed route\<close>

text \<open>
  \<open>const sources = { Hyderabad: [...], ..., Health: [...] }\<close>: the own properties of
  the object literal, in the order of the source.
\<close>

definition sources :: "(string \<times> string list) list" where
  "sources =
    [(''Hyderabad'', [''https://telanganatoday.com/hyderabad/feed'']),
     (''Telangana'', [''https://telanganatoday.com/telangana/feed'',
                      ''https://www.thehindu.com/news/national/feeder/default.rss'']),
     (''India'', [''https://feeds.feedburner.com/ndtvnews-top-stories'',
                  ''https://www.thehindu.com/news/national/feeder/default.rss'']),
     (''International'', [''https://www.thehindu.com/news/international/feeder/default.rss'']),
     (''Sports'', [''https://feeds.feedburner.com/ndtvsports-latest'',
                   ''https://www.thehindu.com/sport/feeder/default.rss'']),
     (''Gadgets'', [''https://feeds.feedburner.com/gadgets360-latest'',
                    ''https://www.thehindu.com/sci-tech/technology/feeder/default.rss'']),
     (''Health'', [''https://www.thehindu.com/sci-tech/health/feeder/default.rss''])]"

text \<open>
  \<open>sources[category]\<close> is a property read on an object literal: an own property is
  found first, then the property is looked up on \<open>Object.prototype\<close>, and only a
  name found in neither place reads as \<open>undefined\<close>. The members of
  \<open>Object.prototype\<close> are functions (and, for \<open>__proto__\<close>, the prototype object):
  truthy values without a \<open>map\<close> method. \<open>object_prototype\<close> lists the property
  names of \<open>Object.prototype\<close> in the runtime the README names (Node 22).
\<close>

datatype property = UrlList "string list" | Inherited

definition object_prototype :: "string list" where
  "object_prototype =
    [''constructor'', ''__defineGetter__'', ''__defineSetter__'', ''hasOwnProperty'',
     ''__lookupGetter__'', ''__lookupSetter__'', ''isPrototypeOf'', ''propertyIsEnumerable'',
     ''toString'', ''valueOf'', ''__proto__'', ''toLocaleString'']"

definition sources_get :: "string \<Rightarrow> property option" where
  "sources_get k =
     (case map_of sources k of
        Some urls \<Rightarrow> Some (UrlList urls)
      | None \<Rightarrow> if k \<in> set object_prototype then Some Inherited else None)"

text \<open>
  The JSON body of the answer: \<open>{ category, items }\<close> or \<open>{ error }\<close>.
\<close>

datatype feed_response = Feed string "feed_item list" | Failure string

text \<open>
  \<open>app.get("/api/feed", ...)\<close>. \<open>query_category\<close> is \<open>req.query.category\<close>, with the
  default of the destructuring when it is absent. \<open>collect urls\<close> is the content of
  \<open>items\<close> when both \<open>Promise.all\<close> have resolved: what the network, the parser and
  the summarizer delivered for these URLs, in completion order; failures inside
  are swallowed by the inner \<open>try\<close> blocks and only shorten it. A value of \<open>urls\<close>
  without \<open>map\<close> throws a TypeError inside the outer \<open>try\<close>, whose \<open>catch\<close> answers
  \<open>res.status(500).json({ error: "feed_failed" })\<close>.
\<close>

definition api_feed :: "(string list \<Rightarrow> feed_item list) \<Rightarrow> string option \<Rightarrow> nat \<times> feed_response" where
  "api_feed collect query_category =
     (let category = (case query_category of None \<Rightarrow> ''India'' | Some c \<Rightarrow> c);
          urls = (case sources_get category of Some v \<Rightarrow> Some v | None \<Rightarrow> sources_get ''India'')
      in case urls of
           Some (UrlList us) \<Rightarrow> (200, Feed category (dedupeByLink (collect us)))
         | _ \<Rightarrow> (500, Failure ''feed_failed''))"

subsection \<open>JavaScript numbers\<close>

text \<open>
  The scores of the ranker are JavaScript numbers: doubles. A finite double is a
  rational, and every arithmetic operation gives the exact result rounded to the
  nearest double, ties to the even mantissa. \<open>fl\<close> is that rounding, with 53 bits
  of mantissa and no bound on the exponent. The values the ranker computes from
  time values (at most 8.64e15 in magnitude) are zero or lie between 2^-40 and
  2^55 in magnitude (\<open>ageMin_magnitude\<close>, \<open>entry_score_magnitude\<close>), far inside the
  exponent range of a double, where \<open>fl\<close> is the rounding of the machine.

  \<open>binade x\<close> is the power of two with \<open>binade x \<le> x < 2 * binade x\<close>, for positive
  \<open>x\<close>; it is found by halving or doubling.
\<close>

function binade_up :: "rat \<Rightarrow> rat" where
  "binade_up x = (if x < 2 then 1 else 2 * binade_up (x / 2))"
  by pat_completeness auto
termination
proof (relation "measure (\<lambda>x. nat \<lfloor>x\<rfloor>)")
  show "wf (measure (\<lambda>x. nat \<lfloor>x\<rfloor>))" by simp
next
  fix x :: rat
  assume "\<not> x < 2"
  then have "2 \<le> x" by simp
  then have "\<lfloor>x / 2\<rfloor> < \<lfloor>x\<rfloor>" by (simp add: floor_less_iff) linarith
  moreover have "0 < \<lfloor>x\<rfloor>" using \<open>2 \<le> x\<close> by (simp add: floor_less_iff) 
  ultimately show "(x / 2, x) \<in> measure (\<lambda>x. nat \<lfloor>x\<rfloor>)" by simp
qed

function binade_down :: "rat \<Rightarrow> rat" where
  "binade_down x = (if x \<le> 0 \<or> 1 \<le> x then 1 else binade_down (2 * x) / 2)"
  by pat_completeness auto
termination
proof (relation "measure (\<lambda>x. nat \<lceil>1 / x\<rceil>)")
  show "wf (measure (\<lambda>x. nat \<lceil>1 / x\<rceil>))" by simp
next
  fix x :: rat
  assume "\<not> (x \<le> 0 \<or> 1 \<le> x)"
  then have x: "0 < x" "x < 1" by simp_all
  then have "1 < 1 / x" by simp
  then have c: "2 \<le> \<lceil>1 / x\<rceil>" by (simp add: le_ceiling_iff)
  have "1 / (2 * x) = (1 / x) / 2" by simp
  also have "\<dots> \<le> of_int \<lceil>1 / x\<rceil> / 2" by (simp add: divide_right_mono)
  finally have "\<lceil>1 / (2 * x)\<rceil> \<le> \<lceil>(of_int \<lceil>1 / x\<rceil> :: rat) / 2\<rceil>"
    by (rule ceiling_mono)
  also have "\<dots> < \<lceil>1 / x\<rceil>"
    using c by (simp add: ceiling_less_iff) 
  finally show "(2 * x, x) \<in> measure (\<lambda>x. nat \<lceil>1 / x\<rceil>)" using c x by simp
qed

declare binade_up.simps [simp del] binade_down.simps [simp del]

definition binade :: "rat \<Rightarrow> rat" where
  "binade x = (if 1 \<le> x then binade_up x else binade_down x)"

text \<open>The nearest integer, a tie going to the even one.\<close>

definition round_even :: "rat \<Rightarrow> int" where
  "round_even y =
     (let f = \<lfloor>y\<rfloor>; r = y - of_int f
      in if r < 1 / 2 then f else if 1 / 2 < r then f + 1 else if even f then f else f + 1)"

text \<open>
  The spacing of the doubles in the binade of \<open>x\<close>, and the rounding: the nearest
  multiple of that spacing.
\<close>

definition ulp :: "rat \<Rightarrow> rat" where
  "ulp x = binade x / 2 ^ 52"

definition fl_pos :: "rat \<Rightarrow> rat" where
  "fl_pos x = of_int (round_even (x / ulp x)) * ulp x"

definition fl :: "rat \<Rightarrow> rat" where
  "fl x = (if x = 0 then 0 else if 0 < x then fl_pos x else - fl_pos (- x))"

text \<open>The relative error bound of one rounding.\<close>

definition eps :: rat where
  "eps = 1 / 2 ^ 53"

subsection \<open>The breaking-news ranker\<close>

text \<open>
  A syndication entry as the feed parser delivers it (the fields the ranker reads),
  and the object the ranker pushes: \<open>{ title, link, source, score }\<close>. A score is a
  double, held as the rational it denotes.
\<close>

record rss_item =
  rss_title :: "jsstring option"
  rss_link :: "string option"
  rss_pubDate :: "string option"

record breaking_item =
  b_title :: "jsstring option"
  b_link :: "string option"
  b_source :: string
  score :: rat

text \<open>
  \<open>/(breaking|live|updates?)/i.test(i.title || "")\<close>. Without the \<open>u\<close> flag the \<open>i\<close>
  flag compares code units after \<open>toUpperCase\<close>, and never lets a unit from 128 on
  match an ASCII letter; the pattern has only ASCII letters, so folding \<open>a-z\<close> to
  \<open>A-Z\<close> decides every comparison. \<open>lit w s\<close>: the literal \<open>w\<close> matches at the start
  of \<open>s\<close>. \<open>updates?\<close> is tried with and then without its last letter. \<open>test\<close> tries
  every start position from the left.
\<close>

definition canon :: "nat \<Rightarrow> nat" where
  "canon c = (if 97 \<le> c \<and> c \<le> 122 then c - 32 else c)"

definition lit :: "string \<Rightarrow> jsstring \<Rightarrow> bool" where
  "lit w s = prefix (map canon (ustr w)) (map canon s)"

definition keyword_at :: "jsstring \<Rightarrow> bool" where
  "keyword_at s = (lit ''breaking'' s \<or> lit ''live'' s \<or> lit ''updates'' s \<or> lit ''update'' s)"

fun re_test :: "jsstring \<Rightarrow> bool" where
  "re_test [] = keyword_at []"
| "re_test (c # cs) = (keyword_at (c # cs) \<or> re_test cs)"

text \<open>
  \<open>const pub = new Date(i.pubDate || 0)\<close>, then \<open>pub.getTime()\<close>: an absent or empty
  \<open>pubDate\<close> gives the epoch, time 0. \<open>parse\<close> is the date parser of the runtime:
  the milliseconds of a string it accepts, \<open>None\<close> for \<open>NaN\<close>. The \<open>Date\<close> constructor
  clips: a time beyond 8.64e15 milliseconds from the epoch is \<open>NaN\<close> as well.
\<close>

definition pub_getTime :: "(string \<Rightarrow> int option) \<Rightarrow> string option \<Rightarrow> int option" where
  "pub_getTime parse p =
     (case p of
        None \<Rightarrow> Some 0
      | Some s \<Rightarrow>
          if s = [] then Some 0
          else (case parse s of
                  None \<Rightarrow> None
                | Some t \<Rightarrow> if \<bar>t\<bar> \<le> 8640000000000000 then Some t else None))"

text \<open>
  \<open>const ageMin = isNaN(pub.getTime()) ? 99999 : (Date.now() - pub.getTime()) / 60000\<close>;
  \<open>now\<close> is the value of \<open>Date.now()\<close>, a time value. The subtraction and the
  division each round.
\<close>

definition ageMin :: "int \<Rightarrow> (string \<Rightarrow> int option) \<Rightarrow> rss_item \<Rightarrow> rat" where
  "ageMin now parse i =
     (case pub_getTime parse (rss_pubDate i) of
        None \<Rightarrow> 99999
      | Some t \<Rightarrow> fl (fl (of_int now - of_int t) / 60000))"

text \<open>
  \<open>const score = (test ? 2 : 1) * (1 / Math.max(1, ageMin))\<close>: a division and a
  multiplication, each rounded.
\<close>

definition entry_score :: "int \<Rightarrow> (string \<Rightarrow> int option) \<Rightarrow> rss_item \<Rightarrow> rat" where
  "entry_score now parse i =
     fl ((if re_test (case rss_title i of None \<Rightarrow> [] | Some t \<Rightarrow> t) then 2 else 1)
           * fl (1 / max 1 (ageMin now parse i)))"

text \<open>
  \<open>items.push({ title: i.title, link: i.link, source: safeDomain(url), score })\<close> for
  one entry, given the clock reading of its scoring and the URL of its feed.
\<close>

definition pushed :: "(string \<Rightarrow> string) \<Rightarrow> (string \<Rightarrow> int option) \<Rightarrow> int \<times> string \<times> rss_item
     \<Rightarrow> breaking_item" where
  "pushed safeDomain parse e =
     (case e of (now, url, i) \<Rightarrow>
        \<lparr>b_title = rss_title i, b_link = rss_link i, b_source = safeDomain url,
         score = entry_score now parse i\<rparr>)"

text \<open>
  \<open>app.get("/api/breaking", ...)\<close>. \<open>collected\<close> lists, in the order \<open>forEach\<close> meets
  them, the first ten entries of every feed that could be fetched, each with the
  clock reading of its scoring and the URL of its feed. The answer is
  \<open>items.sort((a,b) => b.score - a.score).slice(0,5)\<close>. The difference of two
  doubles has the sign of the exact difference, and the sort of the runtime is
  stable, as \<open>sort_key\<close> is.
\<close>

definition api_breaking ::
  "(string \<Rightarrow> string) \<Rightarrow> (string \<Rightarrow> int option) \<Rightarrow> (int \<times> string \<times> rss_item) list
     \<Rightarrow> breaking_item list" where
  "api_breaking safeDomain parse collected =
     (let items = map (pushed safeDomain parse) collected
      in take 5 (sort_key (\<lambda>a. - score a) items))"

text \<open>
  The boost in the words of the spec: 2 if the title, compared without regard to
  case, contains "breaking", "live", "update" or "updates", else 1.
\<close>

definition boost_words :: "string list" where
  "boost_words = [''breaking'', ''live'', ''update'', ''updates'']"

definition keywordBoost_spec :: "jsstring \<Rightarrow> rat" where
  "keywordBoost_spec t =
     (if \<exists>w \<in> set boost_words. sublist (map canon (ustr w)) (map canon t) then 2 else 1)"

text \<open>Concrete entries and a date parser that knows one date, for evaluation.\<close>

definition example_parse :: "string \<Rightarrow> int option" where
  "example_parse s =
     (if s = ''Tue, 14 Nov 2023 22:12:20 GMT'' then Some 1699999940000 else None)"

definition example_entry :: "string \<Rightarrow> string option \<Rightarrow> rss_item" where
  "example_entry t p = \<lparr>rss_title = Some (ustr t), rss_link = Some ''http://a'', rss_pubDate = p\<rparr>"

section \<open>Properties\<close>

subsection \<open>Properties of the dedup filter\<close>

lemma dedupe_filter_links:
  "link ` set (dedupe_filter s items) = link ` set items - s"
  by (induction items arbitrary: s) auto

lemma dedupe_filter_set: "set (dedupe_filter s items) \<subseteq> set items"
  by (induction items arbitrary: s) auto

lemma dedupe_filter_subseq: "subseq (dedupe_filter s items) items"
  by (induction items arbitrary: s) auto

lemma dedupe_filter_distinct: "distinct (map link (dedupe_filter s items))"
proof (induction items arbitrary: s)
  case Nil
  show ?case by simp
next
  case (Cons i items)
  have "link i \<notin> link ` set (dedupe_filter (insert (link i) s) items)"
    unfolding dedupe_filter_links by simp
  with Cons show ?case by simp
qed

lemma dedupe_filter_first:
  "i \<in> set (dedupe_filter s items) \<Longrightarrow> find (\<lambda>j. link j = link i) items = Some i"
proof (induction items arbitrary: s)
  case Nil
  then show ?case by simp
next
  case (Cons x items)
  show ?case
  proof (cases "link x \<in> s")
    case True
    with Cons.prems have mem: "i \<in> set (dedupe_filter s items)" by simp
    then have "link i \<in> link ` set (dedupe_filter s items)" by blast
    then have "link i \<notin> s" unfolding dedupe_filter_links by simp
    with True have "link x \<noteq> link i" by auto
    with Cons.IH [OF mem] show ?thesis by simp
  next
    case False
    with Cons.prems
    consider "i = x" | "i \<in> set (dedupe_filter (insert (link x) s) items)" by auto
    then show ?thesis
    proof cases
      case 1
      then show ?thesis by simp
    next
      case 2
      then have "link i \<in> link ` set (dedupe_filter (insert (link x) s) items)" by blast
      then have "link x \<noteq> link i" unfolding dedupe_filter_links by auto
      with Cons.IH [OF 2] show ?thesis by simp
    qed
  qed
qed

lemma distinct_links_length_le:
  assumes sub: "subseq ys items" and dis: "distinct (map link ys)"
  shows "length ys \<le> length (dedupe_filter {} items)"
proof -
  have "length ys = card (link ` set ys)"
    using distinct_card [OF dis] by simp
  also have "\<dots> \<le> card (link ` set items)"
    using list_emb_set [OF sub] by (intro card_mono) auto
  also have "\<dots> = card (set (map link (dedupe_filter {} items)))"
    using dedupe_filter_links [of "{}" items] by simp
  also have "\<dots> = length (dedupe_filter {} items)"
    using distinct_card [OF dedupe_filter_distinct [of "{}" items]] by simp
  finally show ?thesis .
qed

lemma dedupe_filter_fixed:
  "distinct (map link items) \<Longrightarrow> link ` set items \<inter> s = {} \<Longrightarrow> dedupe_filter s items = items"
  by (induction items arbitrary: s) auto

text \<open>
  Claim C1. For every input sequence the dedup filter returns a subsequence of the
  input, in the input's order, in which no two items share a link; no subsequence
  of the input with pairwise different links is longer; every returned item is the
  first item of the input carrying its link, and every link of the input is kept;
  so the output is at most as long as the input.
\<close>

theorem dedupeByLink_longest_first_occurrence:
  "subseq (dedupeByLink items) items
   \<and> distinct (map link (dedupeByLink items))
   \<and> (\<forall>ys. subseq ys items \<and> distinct (map link ys)
         \<longrightarrow> length ys \<le> length (dedupeByLink items))
   \<and> (\<forall>i \<in> set (dedupeByLink items). find (\<lambda>j. link j = link i) items = Some i)
   \<and> link ` set (dedupeByLink items) = link ` set items
   \<and> length (dedupeByLink items) \<le> length items"
proof -
  have "length (dedupe_filter {} items) \<le> length items"
    by (rule list_emb_length [OF dedupe_filter_subseq])
  then show ?thesis
    unfolding dedupeByLink_def
    using dedupe_filter_subseq [of "{}" items] dedupe_filter_distinct [of "{}" items]
      dedupe_filter_links [of "{}" items] distinct_links_length_le [of _ items]
      dedupe_filter_first [of _ "{}" items]
    by simp
qed

theorem dedupeByLink_longest_first_occurrence_witness:
  "subseq [example_item ''second'' ''http://b'', example_item ''third'' ''http://a'']
      [example_item ''first'' ''http://a'', example_item ''second'' ''http://b'',
       example_item ''third'' ''http://a'']
   \<and> distinct (map link [example_item ''second'' ''http://b'', example_item ''third'' ''http://a''])
   \<and> length [example_item ''second'' ''http://b'', example_item ''third'' ''http://a'']
       \<le> length (dedupeByLink [example_item ''first'' ''http://a'',
            example_item ''second'' ''http://b'', example_item ''third'' ''http://a''])
   \<and> example_item ''first'' ''http://a'' \<in> set (dedupeByLink [example_item ''first'' ''http://a'',
            example_item ''second'' ''http://b'', example_item ''third'' ''http://a''])
   \<and> find (\<lambda>j. link j = link (example_item ''first'' ''http://a''))
         [example_item ''first'' ''http://a'', example_item ''second'' ''http://b'',
          example_item ''third'' ''http://a''] = Some (example_item ''first'' ''http://a'')"
proof -
  let ?a = "example_item ''first'' ''http://a''"
  let ?b = "example_item ''second'' ''http://b''"
  let ?c = "example_item ''third'' ''http://a''"
  have h: "subseq [?b, ?c] [?a, ?b, ?c] \<and> distinct (map link [?b, ?c])"
    by (simp add: example_item_def)
  have m: "?a \<in> set (dedupeByLink [?a, ?b, ?c])"
    by (simp add: dedupeByLink_def example_item_def)
  from dedupeByLink_longest_first_occurrence [of "[?a, ?b, ?c]"]
  have "length [?b, ?c] \<le> length (dedupeByLink [?a, ?b, ?c])"
    and "find (\<lambda>j. link j = link ?a) [?a, ?b, ?c] = Some ?a"
    using h m by blast+
  with h m show ?thesis by blast
qed

text \<open>
  Claim C9. The dedup filter is idempotent: applied to its own output it returns
  that output unchanged.
\<close>

theorem dedupeByLink_idempotent:
  "dedupeByLink (dedupeByLink items) = dedupeByLink items"
  unfolding dedupeByLink_def
  by (rule dedupe_filter_fixed) (simp_all add: dedupe_filter_distinct)

subsection \<open>Properties of the studio buffer\<close>

lemma push_take:
  "push x b = take studioMax (x # b)" if "length b \<le> studioMax"
proof (cases "length b < studioMax")
  case True
  then show ?thesis by (simp add: push_def)
next
  case False
  with that have len: "length b = studioMax" by simp
  have "butlast (x # b) = take (length (x # b) - 1) (x # b)"
    by (rule butlast_conv_take)
  with len show ?thesis by (simp add: push_def)
qed

lemma push_length: "length b \<le> studioMax \<Longrightarrow> length (push x b) \<le> studioMax"
  by (simp add: push_take)

lemma push_head: "push x b = x # (if length b < studioMax then b else butlast b)"
  by (cases b) (auto simp: push_def Let_def studioMax_def)

lemma push_all_take:
  "length b \<le> studioMax \<Longrightarrow> push_all b xs = take studioMax (rev xs @ b)"
proof (induction xs arbitrary: b)
  case Nil
  then show ?case by simp
next
  case (Cons x xs)
  have "push_all (push x b) xs = take studioMax (rev xs @ push x b)"
    by (rule Cons.IH) (rule push_length [OF Cons.prems])
  also have "\<dots> = take studioMax (rev xs @ take studioMax (x # b))"
    by (simp add: push_take [OF Cons.prems])
  also have "\<dots> = take studioMax (rev xs @ x # b)"
    by (simp add: take_Cons' min_def)
  finally show ?case by simp
qed

text \<open>
  Claim C2. Starting from the empty buffer, after any sequence of pushes the buffer
  holds at most 50 entries, and they are exactly the 50 most recent pushes, the most
  recent first. One push puts the new item at the head and, when the buffer was
  full, drops the entry at the tail. After 51 distinct items the size is 50 and the
  item pushed first is gone.
\<close>

theorem studio_buffer_bounded_recent_first:
  "length (push_all [] objs) \<le> 50
   \<and> push_all [] objs = take 50 (rev objs)
   \<and> push obj b = obj # (if length b < 50 then b else butlast b)
   \<and> (length objs = 51 \<and> distinct objs \<longrightarrow>
        length (push_all [] objs) = 50 \<and> hd objs \<notin> set (push_all [] objs))"
proof -
  have eq: "push_all [] objs = take 50 (rev objs)"
    using push_all_take [of "[]" objs] by (simp add: studioMax_def)
  have gone: "hd objs \<notin> set (take 50 (rev objs))" if "length objs = 51" "distinct objs"
  proof -
    from that obtain x xs where o: "objs = x # xs" by (cases objs) auto
    with that have "take 50 (rev objs) = rev xs" by simp
    with o that show ?thesis by simp
  qed
  show ?thesis
    using eq gone push_head [of obj b] by (simp add: studioMax_def)
qed

theorem studio_buffer_bounded_recent_first_witness:
  "length [0..<51] = 51 \<and> distinct [0..<51]
   \<and> length (push_all [] [0..<51]) = 50 \<and> hd [0..<51] \<notin> set (push_all [] [0..<51])"
proof -
  have h: "length [0..<51] = 51 \<and> distinct [0..<51]" by simp
  with studio_buffer_bounded_recent_first [where objs = "[0..<51]" and obj = "0::nat" and b = "[]"]
  show ?thesis by blast
qed

subsection \<open>What the webhook answers and stores\<close>


lemma webhook_accepted:
  assumes "ADMIN_KEY = None \<or> ADMIN_KEY = Some [] \<or> secret = ADMIN_KEY"
  shows "telegram_webhook ADMIN_KEY secret req_body buf =
     (200, case req_body of
             Update u \<Rightarrow>
               (case channel_branch u of
                  Some ch \<Rightarrow> push (make_post ch) buf
                | None \<Rightarrow> (case private_branch u of
                             Some msg \<Rightarrow> push (make_post msg) buf
                           | None \<Rightarrow> buf)))"
  using assms
  by (auto simp: telegram_webhook_def truthy_def split: request_body.splits option.splits)

lemma webhook_stored:
  assumes acc: "ADMIN_KEY = None \<or> ADMIN_KEY = Some [] \<or> secret = ADMIN_KEY"
    and br: "channel_branch u = Some m \<or> (channel_branch u = None \<and> private_branch u = Some m)"
  shows "snd (telegram_webhook ADMIN_KEY secret (Update u) buf) = push (make_post m) buf"
  using br unfolding webhook_accepted [OF acc] by auto

lemma webhook_buffer_bounded:
  "length buf \<le> studioMax
    \<Longrightarrow> length (snd (telegram_webhook ADMIN_KEY secret req_body buf)) \<le> studioMax"
  by (auto simp: telegram_webhook_def push_length split: request_body.splits option.splits)

text \<open>
  Claim C4, as the spec states it: every delivery is answered with a success status,
  also one whose shared-secret check fails. With a key configured and another value
  in the header, the handler answers 401.
\<close>

theorem webhook_status_counterexample:
  "fst (telegram_webhook (Some ''s3cret'') (Some ''guess'')
         (Update \<lparr>channel_post = Some example_message, message = None\<rparr>) []) = 401"
  by (simp add: telegram_webhook_def truthy_def)




text \<open>
  Claim C6, as the spec states it: when a caption and a text field are both present,
  the stored body is the caption. The example broadcast carries both; its stored
  body is the text field.
\<close>

theorem webhook_body_counterexample:
  "post_caption (hd (snd (telegram_webhook None None
      (Update \<lparr>channel_post = Some example_message, message = None\<rparr>) []))) = ustr ''from text''
   \<and> caption example_message = Some (ustr ''from caption'')
   \<and> ustr ''from text'' \<noteq> ustr ''from caption''"
  by (simp add: telegram_webhook_def truthy_def channel_branch_def example_message_def
      make_post_def body_text_def push_def studioMax_def ustr_def)

text \<open>
  Claim C6, amended. For every ingested delivery the stored body is the text field
  when that is present and not empty, whatever the caption; the caption is used only
  when the text field is absent or empty; with neither, the body is empty. The
  stored title is the first line of that body, cut to 100 units.
\<close>

theorem webhook_body_text_first:
  assumes "ADMIN_KEY = None \<or> ADMIN_KEY = Some [] \<or> secret = ADMIN_KEY"
    and "channel_branch u = Some m \<or> (channel_branch u = None \<and> private_branch u = Some m)"
  shows "\<exists>stored rest. snd (telegram_webhook ADMIN_KEY secret (Update u) buf) = stored # rest
      \<and> (\<forall>t. msg_text m = Some t \<and> t \<noteq> [] \<longrightarrow> post_caption stored = t)
      \<and> (msg_text m = None \<or> msg_text m = Some [] \<longrightarrow>
           (\<forall>c. caption m = Some c \<longrightarrow> post_caption stored = c)
           \<and> (caption m = None \<longrightarrow> post_caption stored = []))
      \<and> post_title stored = take 100 (takeWhile (\<lambda>c. c \<noteq> 10) (post_caption stored))"
proof (intro exI conjI)
  show "snd (telegram_webhook ADMIN_KEY secret (Update u) buf)
      = make_post m # (if length buf < studioMax then buf else butlast buf)"
    unfolding webhook_stored [OF assms] by (rule push_head)
  show "\<forall>t. msg_text m = Some t \<and> t \<noteq> [] \<longrightarrow> post_caption (make_post m) = t"
    by (auto simp: make_post_def body_text_def split: option.splits list.splits)
  show "msg_text m = None \<or> msg_text m = Some [] \<longrightarrow>
           (\<forall>c. caption m = Some c \<longrightarrow> post_caption (make_post m) = c)
           \<and> (caption m = None \<longrightarrow> post_caption (make_post m) = [])"
    by (auto simp: make_post_def body_text_def split: option.splits list.splits)
  show "post_title (make_post m)
      = take 100 (takeWhile (\<lambda>c. c \<noteq> 10) (post_caption (make_post m)))"
    by (simp add: make_post_def first_line_100_def)
qed

theorem webhook_body_text_first_witness:
  "(\<exists>stored rest. snd (telegram_webhook None None
        (Update \<lparr>channel_post = Some (example_message\<lparr>msg_text := None,
            caption := Some (ustr ''Flood alert'' @ [10] @ ustr ''more text'')\<rparr>),
          message = None\<rparr>) [])
        = stored # rest
      \<and> post_caption stored = ustr ''Flood alert'' @ [10] @ ustr ''more text''
      \<and> post_title stored = ustr ''Flood alert'')
   \<and> (\<exists>stored rest. snd (telegram_webhook None None
        (Update \<lparr>channel_post = Some example_message, message = None\<rparr>) []) = stored # rest
      \<and> post_caption stored = ustr ''from text'')"
proof -
  let ?c = "ustr ''Flood alert'' @ [10] @ ustr ''more text''"
  let ?m = "example_message\<lparr>msg_text := None, caption := Some ?c\<rparr>"
  let ?u = "\<lparr>channel_post = Some ?m, message = None\<rparr>"
  let ?v = "\<lparr>channel_post = Some example_message, message = None\<rparr>"
  have acc: "(None :: string option) = None \<or> (None :: string option) = Some []
      \<or> None = (None :: string option)"
    by simp
  have br: "channel_branch ?u = Some ?m \<or> (channel_branch ?u = None \<and> private_branch ?u = Some ?m)"
    by (simp add: channel_branch_def example_message_def)
  have br': "channel_branch ?v = Some example_message
      \<or> (channel_branch ?v = None \<and> private_branch ?v = Some example_message)"
    by (simp add: channel_branch_def example_message_def)
  have line: "take 100 (takeWhile (\<lambda>c. c \<noteq> 10) ?c) = ustr ''Flood alert''"
    by (simp add: ustr_def)
  from webhook_body_text_first [OF acc br, of "[]"]
  obtain stored rest where s: "snd (telegram_webhook None None (Update ?u) []) = stored # rest"
    and c: "msg_text ?m = None \<or> msg_text ?m = Some [] \<longrightarrow>
           (\<forall>c. caption ?m = Some c \<longrightarrow> post_caption stored = c)"
    and t: "post_title stored = take 100 (takeWhile (\<lambda>c. c \<noteq> 10) (post_caption stored))"
    by blast
  from c have c': "post_caption stored = ?c" by simp
  with t line have "post_title stored = ustr ''Flood alert''" by simp
  with s c' have 1: "\<exists>stored rest. snd (telegram_webhook None None (Update ?u) []) = stored # rest
      \<and> post_caption stored = ?c \<and> post_title stored = ustr ''Flood alert''"
    by blast
  from webhook_body_text_first [OF acc br', of "[]"]
  obtain stored' rest' where s': "snd (telegram_webhook None None (Update ?v) []) = stored' # rest'"
    and t': "\<forall>t. msg_text example_message = Some t \<and> t \<noteq> [] \<longrightarrow> post_caption stored' = t"
    by blast
  have "msg_text example_message = Some (ustr ''from text'') \<and> ustr ''from text'' \<noteq> []"
    by (simp add: example_message_def ustr_def)
  with t' have "post_caption stored' = ustr ''from text''" by blast
  with s' have 2: "\<exists>stored rest. snd (telegram_webhook None None (Update ?v) []) = stored # rest
      \<and> post_caption stored = ustr ''from text''"
    by blast
  from 1 2 show ?thesis by blast
qed

subsection \<open>What the route answers on any body\<close>

lemma webhook_handler_accepted:
  assumes "ADMIN_KEY = None \<or> ADMIN_KEY = Some [] \<or> secret = ADMIN_KEY"
  shows "webhook_handler ADMIN_KEY secret update buf =
     (200, case recognised update of
             None \<Rightarrow> buf
           | Some m \<Rightarrow> (case make_post_js m of Inl e \<Rightarrow> buf | Inr p \<Rightarrow> push p buf))"
  using assms
  by (auto simp: webhook_handler_def recognised_def truthy_def split: option.splits sum.splits)

lemma exn_TypeError: "(e :: exn) = TypeError"
  by (cases e)

lemma make_post_js_throws_iff:
  "make_post_js m = Inl TypeError \<longleftrightarrow>
     (\<exists>p. js_get m ''photo'' = Some p \<and> truthy_js (js_get p ''length'')
          \<and> photo_file_id p = Inl TypeError)
     \<or> (\<forall>s. text_js m \<noteq> JStr s)"
  by (cases "text_js m")
     (auto simp: make_post_js_def media_js_def exn_TypeError [of "_ :: exn"]
        split: option.splits sum.splits if_splits)

text \<open>
  On a body of the Bot API's types the route does what the typed callback does:
  same status, and the buffer of the one is the buffer of the other, written as
  JSON.
\<close>

lemma ustr_inj: "ustr a = ustr b \<longleftrightarrow> a = b"
proof -
  have "inj (of_char :: char \<Rightarrow> nat)" by (rule inj_of_char)
  then have "inj (map (of_char :: char \<Rightarrow> nat))" by simp
  then show ?thesis unfolding ustr_def by (auto dest: injD)
qed

lemma js_get_enc_message:
  "js_get (enc_message m) ''message_id'' = Some (JNum (of_int (message_id m)))"
  "js_get (enc_message m) ''date'' = Some (JNum (of_int (date m)))"
  "js_get (enc_message m) ''chat'' = map_option (\<lambda>t. JObj [(''type'', JStr (ustr t))]) (chat_type m)"
  "js_get (enc_message m) ''photo'' = map_option (\<lambda>ps. JArr (map enc_file ps)) (photo m)"
  "js_get (enc_message m) ''video'' = map_option enc_file (video m)"
  "js_get (enc_message m) ''text'' = map_option JStr (msg_text m)"
  "js_get (enc_message m) ''caption'' = map_option JStr (caption m)"
  by (simp_all add: enc_message_def enc_opt_def split: option.splits)

lemma media_js_enc:
  "media_js (enc_message m)
     = Inr (fst (media m), case snd (media m) of None \<Rightarrow> Some JNull | Some f \<Rightarrow> Some (JStr (ustr f)))"
  by (cases "photo m"; cases "video m")
     (auto simp: media_js_def media_def js_get_enc_message enc_file_def last_map
        split: list.splits)

lemma text_js_enc: "text_js (enc_message m) = JStr (body_text m)"
  by (auto simp: text_js_def body_text_def js_get_enc_message split: option.splits list.splits)

lemma make_post_js_enc: "make_post_js (enc_message m) = Inr (enc_post (make_post m))"
  by (simp add: make_post_js_def media_js_enc text_js_enc enc_post_def make_post_def
      js_get_enc_message)

lemma chat_type_enc:
  "js_get_opt (js_get (enc_message m) ''chat'') ''type'' = Some (JStr (ustr t))
     \<longleftrightarrow> chat_type m = Some t"
  by (cases "chat_type m") (simp_all add: js_get_enc_message ustr_inj)

lemma branch_enc:
  "branch (enc_update u) ''channel_post'' ''channel'' = map_option enc_message (channel_branch u)"
  "branch (enc_update u) ''message'' ''private'' = map_option enc_message (private_branch u)"
  by (auto simp: branch_def enc_update_def enc_opt_def channel_branch_def private_branch_def
      chat_type_enc split: option.splits)

lemma push_map: "push (f x) (map f b) = map f (push x b)"
  by (simp add: push_def Let_def map_butlast)

lemma webhook_route_enc:
  "webhook_route ADMIN_KEY secret (Parsed (enc_update u)) (map enc_post buf)
     = (fst (telegram_webhook ADMIN_KEY secret (Update u) buf),
        map enc_post (snd (telegram_webhook ADMIN_KEY secret (Update u) buf)))"
  by (auto simp: webhook_route_def webhook_handler_def telegram_webhook_def branch_enc
      make_post_js_enc push_map split: option.splits)

text \<open>
  Claim C4, amended. A delivery whose body the JSON body parser rejects is answered
  500 by the error handler, before the callback and its secret check run. A
  delivery with a parsed body that fails the shared-secret check is answered 401.
  Every delivery with a parsed body that passes the check (no key is configured,
  or the header equals the key) is answered 200: a body of neither recognised
  shape leaves the buffer unchanged, a recognised message on which the callback
  throws leaves it unchanged as well, and any other recognised message is pushed.
  In the first two cases the buffer is unchanged too.
\<close>

theorem webhook_status:
  "webhook_route ADMIN_KEY secret Rejected buf = (500, buf)
   \<and> (ADMIN_KEY = Some k \<and> k \<noteq> [] \<and> secret \<noteq> Some k
      \<longrightarrow> webhook_route ADMIN_KEY secret (Parsed update) buf = (401, buf))
   \<and> (ADMIN_KEY = None \<or> ADMIN_KEY = Some [] \<or> secret = ADMIN_KEY
      \<longrightarrow> fst (webhook_route ADMIN_KEY secret (Parsed update) buf) = 200
          \<and> (branch update ''channel_post'' ''channel'' = None
               \<and> branch update ''message'' ''private'' = None
             \<longrightarrow> webhook_route ADMIN_KEY secret (Parsed update) buf = (200, buf))
          \<and> (\<forall>m. (branch update ''channel_post'' ''channel'' = Some m
                    \<or> branch update ''channel_post'' ''channel'' = None
                       \<and> branch update ''message'' ''private'' = Some m)
                 \<longrightarrow> (make_post_js m = Inl TypeError
                        \<longrightarrow> webhook_route ADMIN_KEY secret (Parsed update) buf = (200, buf))
                     \<and> (\<forall>p. make_post_js m = Inr p
                        \<longrightarrow> webhook_route ADMIN_KEY secret (Parsed update) buf
                              = (200, push p buf))))"
proof (intro conjI impI allI)
  show "webhook_route ADMIN_KEY secret Rejected buf = (500, buf)"
    by (simp add: webhook_route_def)
next
  assume "ADMIN_KEY = Some k \<and> k \<noteq> [] \<and> secret \<noteq> Some k"
  then show "webhook_route ADMIN_KEY secret (Parsed update) buf = (401, buf)"
    by (simp add: webhook_route_def webhook_handler_def truthy_def)
next
  assume acc: "ADMIN_KEY = None \<or> ADMIN_KEY = Some [] \<or> secret = ADMIN_KEY"
  note h = webhook_handler_accepted [OF acc, of update buf]
  show "fst (webhook_route ADMIN_KEY secret (Parsed update) buf) = 200"
    by (simp add: webhook_route_def h)
  show "webhook_route ADMIN_KEY secret (Parsed update) buf = (200, buf)"
    if "branch update ''channel_post'' ''channel'' = None
        \<and> branch update ''message'' ''private'' = None"
    using that by (simp add: webhook_route_def h recognised_def)
  fix m
  assume m: "branch update ''channel_post'' ''channel'' = Some m
      \<or> branch update ''channel_post'' ''channel'' = None
         \<and> branch update ''message'' ''private'' = Some m"
  then have r: "recognised update = Some m" by (auto simp: recognised_def)
  show "webhook_route ADMIN_KEY secret (Parsed update) buf = (200, buf)"
    if "make_post_js m = Inl TypeError"
    using that by (simp add: webhook_route_def h r)
  show "webhook_route ADMIN_KEY secret (Parsed update) buf = (200, push p buf)"
    if "make_post_js m = Inr p" for p
    using that by (simp add: webhook_route_def h r)
qed

theorem webhook_status_witness:
  "webhook_route (Some ''s3cret'') (Some ''s3cret'') Rejected [] = (500, [])
   \<and> webhook_route (Some ''s3cret'') None (Parsed (example_body (JStr (ustr ''hello'')))) []
       = (401, [])
   \<and> webhook_route None (Some ''guess'') (Parsed (JArr [])) [] = (200, [])
   \<and> webhook_route (Some ''s3cret'') (Some ''s3cret'') (Parsed (example_body (JNum 5))) []
       = (200, [])
   \<and> webhook_route (Some ''s3cret'') (Some ''s3cret'')
         (Parsed (example_body (JStr (ustr ''hello'')))) []
       = (200, [\<lparr>jp_id = Some (JNum 7), jp_type = ''text'', jp_file_id = Some JNull,
                  jp_title = ustr ''hello'', jp_caption = ustr ''hello'',
                  jp_date = Some (JNum 1700000000), jp_tags = []\<rparr>])"
proof -
  let ?K = "Some ''s3cret''"
  let ?m = "\<lambda>t. JObj [(''message_id'', JNum 7), (''date'', JNum 1700000000),
                    (''chat'', JObj [(''id'', JNum (- 100)), (''type'', JStr (ustr ''channel''))]),
                    (''text'', t)]"
  let ?p = "\<lparr>jp_id = Some (JNum 7), jp_type = ''text'', jp_file_id = Some JNull,
                  jp_title = ustr ''hello'', jp_caption = ustr ''hello'',
                  jp_date = Some (JNum 1700000000), jp_tags = []\<rparr>"
  have key: "?K = Some ''s3cret'' \<and> ''s3cret'' \<noteq> [] \<and> None \<noteq> Some ''s3cret''" by simp
  have acc: "?K = None \<or> ?K = Some [] \<or> ?K = ?K" by simp
  have acc': "(None :: string option) = None \<or> (None :: string option) = Some []
      \<or> Some ''guess'' = (None :: string option)" by simp
  have shape: "branch (JArr []) ''channel_post'' ''channel'' = None
      \<and> branch (JArr []) ''message'' ''private'' = None"
    by (simp add: branch_def)
  have br: "branch (example_body t) ''channel_post'' ''channel'' = Some (?m t)" for t
    by (simp add: branch_def example_body_def)
  have throws: "make_post_js (?m (JNum 5)) = Inl TypeError"
    by (simp add: make_post_js_def media_js_def text_js_def)
  have posts: "make_post_js (?m (JStr (ustr ''hello''))) = Inr ?p"
    by (simp add: make_post_js_def media_js_def text_js_def first_line_100_def ustr_def)
  have 1: "webhook_route ?K ?K Rejected [] = (500, [])"
    using webhook_status [of ?K ?K "[]"] by blast
  have 2: "webhook_route ?K None (Parsed (example_body (JStr (ustr ''hello'')))) [] = (401, [])"
    using webhook_status [of ?K None "[]" "''s3cret''" "example_body (JStr (ustr ''hello''))"] key
    by blast
  have 3: "webhook_route None (Some ''guess'') (Parsed (JArr [])) [] = (200, [])"
    using webhook_status [of None "Some ''guess''" "[]" _ "JArr []"] shape by blast
  have 4: "webhook_route ?K ?K (Parsed (example_body (JNum 5))) [] = (200, [])"
    using webhook_status [of ?K ?K "[]" _ "example_body (JNum 5)"] acc br [of "JNum 5"] throws
    by blast
  have "webhook_route ?K ?K (Parsed (example_body (JStr (ustr ''hello'')))) [] = (200, push ?p [])"
    using webhook_status [of ?K ?K "[]" _ "example_body (JStr (ustr ''hello''))"] acc
      br [of "JStr (ustr ''hello'')"] posts
    by blast
  then have 5: "webhook_route ?K ?K (Parsed (example_body (JStr (ustr ''hello'')))) [] = (200, [?p])"
    by (simp add: push_def studioMax_def)
  from 1 2 3 4 5 show ?thesis by blast
qed

subsection \<open>The whole-word exceptions come after the single letters\<close>

lemma replace_all_removes:
  "[c] \<in> set alts \<Longrightarrow> c \<notin> set rep \<Longrightarrow> c \<notin> set (replace_all alts rep s)"
proof (induction alts rep s rule: replace_all.induct)
  case (1 alts rep)
  show ?case by simp
next
  case (2 alts rep d ds)
  show ?case
  proof (cases "find (\<lambda>p. p \<noteq> [] \<and> prefix p (d # ds)) alts")
    case None
    with "2.prems" have "\<not> prefix [c] (d # ds)"
      by (auto simp: find_None_iff)
    then have "c \<noteq> d" by simp
    with None 2 show ?thesis by simp
  next
    case (Some p)
    with 2 show ?thesis by simp
  qed
qed

lemma replace_all_keeps_absent:
  "c \<notin> set rep \<Longrightarrow> c \<notin> set s \<Longrightarrow> c \<notin> set (replace_all alts rep s)"
proof (induction alts rep s rule: replace_all.induct)
  case (1 alts rep)
  show ?case by simp
next
  case (2 alts rep d ds)
  show ?case
  proof (cases "find (\<lambda>p. p \<noteq> [] \<and> prefix p (d # ds)) alts")
    case None
    with 2 show ?thesis by simp
  next
    case (Some p)
    from "2.prems" have "c \<notin> set (drop (length p - 1) ds)"
      by (auto dest: in_set_dropD)
    with Some 2 show ?thesis by simp
  qed
qed

lemma replace_all_no_match:
  "\<forall>p \<in> set alts. \<not> set p \<subseteq> set s \<Longrightarrow> replace_all alts rep s = s"
proof (induction s)
  case Nil
  show ?case by simp
next
  case (Cons d ds)
  have "find (\<lambda>p. p \<noteq> [] \<and> prefix p (d # ds)) alts = None"
    using Cons.prems by (auto simp: find_None_iff dest: set_mono_prefix)
  moreover have "replace_all alts rep ds = ds"
    using Cons.prems by (intro Cons.IH) auto
  ultimately show ?case by simp
qed

text \<open>
  The letter ha (U+0939) is rewritten by the loop and none of the four rules after
  it produces one, so neither whole-word pattern can match what the loop returns:
  on every input the two final replacements change nothing.
\<close>

lemma apply_map_no_ha: "0x939 \<notin> set (apply_map str)"
  unfolding apply_map_def translit_map_def
  by (simp add: replace_all_keeps_absent replace_all_removes ustr_def)

lemma toRomanHindi_is_apply_map: "toRomanHindi str = apply_map str"
  unfolding toRomanHindi_def
  using apply_map_no_ha [of str]
  by (simp add: replace_all_no_match)

text \<open>
  Claim C7. The spec asks that the whole-word exceptions be applied before the
  single-letter rules, so that U+0939 U+0948 becomes "hai" and
  U+0928 U+0939 U+0940 U+0902 becomes "nahi". The function applies them last: the
  first word comes out as "h" followed by the untouched vowel sign U+0948, the
  second as "nh", the vowel sign U+0940 and "n".
\<close>

theorem toRomanHindi_exceptions_dead:
  "toRomanHindi [0x939, 0x948] = [104, 0x948]
   \<and> toRomanHindi [0x939, 0x948] \<noteq> ustr ''hai''
   \<and> toRomanHindi [0x928, 0x939, 0x940, 0x902] = [110, 104, 0x940, 110]
   \<and> toRomanHindi [0x928, 0x939, 0x940, 0x902] \<noteq> ustr ''nahi''"
  by (simp add: toRomanHindi_def apply_map_def translit_map_def ustr_def)

text \<open>The conjuncts do stand before their letters in the table.\<close>

lemma toRomanHindi_conjuncts_first:
  "toRomanHindi [0x915, 0x94D, 0x937] = ustr ''ksh''
   \<and> toRomanHindi [0x91C, 0x94D, 0x91E] = ustr ''gya''
   \<and> toRomanHindi [0x924, 0x94D, 0x930] = ustr ''tra''"
  by (simp add: toRomanHindi_def apply_map_def translit_map_def ustr_def)

subsection \<open>Category lookup of the feed route\<close>

lemma sources_India:
  "sources_get ''India'' = Some (UrlList [''https://feeds.feedburner.com/ndtvnews-top-stories'',
                  ''https://www.thehindu.com/news/national/feeder/default.rss''])"
  by (simp add: sources_get_def sources_def)

text \<open>
  Claim C8. The spec asks that every category name that is not in the source table
  falls back to the "India" list and is answered 200. The name "constructor" is not
  in the table, but the lookup finds the inherited member of that name, so there is
  no fallback, and the request is answered 500 with \<open>feed_failed\<close>.
\<close>

theorem api_feed_inherited_name_fails:
  "map_of sources ''constructor'' = None
   \<and> api_feed collect (Some ''constructor'') = (500, Failure ''feed_failed'')"
  by (simp add: api_feed_def sources_get_def sources_def object_prototype_def)

text \<open>
  For every other name that is not in the table the fallback works, and a name of
  the table selects its own list.
\<close>

lemma api_feed_fallback:
  assumes "map_of sources c = None" and "c \<notin> set object_prototype"
  shows "api_feed collect (Some c) =
     (200, Feed c (dedupeByLink (collect [''https://feeds.feedburner.com/ndtvnews-top-stories'',
                  ''https://www.thehindu.com/news/national/feeder/default.rss''])))"
proof -
  from assms have "sources_get c = None" by (simp add: sources_get_def)
  then show ?thesis by (simp add: api_feed_def sources_India)
qed

lemma api_feed_listed:
  assumes "map_of sources c = Some us"
  shows "api_feed collect (Some c) = (200, Feed c (dedupeByLink (collect us)))"
  using assms by (simp add: api_feed_def sources_get_def)

text \<open>
  Claim C10. The spec asks that the answer's \<open>category\<close> field echoes the requested
  name for every name. For the name "toString", inherited like "constructor", the
  answer is the error body, which has no \<open>category\<close> field.
\<close>

theorem api_feed_no_category_field:
  "api_feed collect (Some ''toString'') = (500, Failure ''feed_failed'')
   \<and> (\<forall>items. snd (api_feed collect (Some ''toString'')) \<noteq> Feed ''toString'' items)"
  by (simp add: api_feed_def sources_get_def sources_def object_prototype_def)

text \<open>Whenever the route answers 200, the requested name is echoed as it came.\<close>

lemma api_feed_echo:
  assumes "fst (api_feed collect (Some c)) = 200"
  shows "\<exists>items. snd (api_feed collect (Some c)) = Feed c items"
  using assms
  by (auto simp: api_feed_def Let_def split: option.splits property.splits)

subsection \<open>Rounding to a double\<close>

lemma binade_up_bounds: "1 \<le> x \<Longrightarrow> binade_up x \<le> x \<and> x < 2 * binade_up x \<and> 0 < binade_up x"
proof (induction x rule: binade_up.induct)
  case (1 x)
  show ?case
  proof (cases "x < 2")
    case True
    with "1.prems" show ?thesis by (simp add: binade_up.simps [of x])
  next
    case False
    then have "1 \<le> x / 2" by simp
    from "1.IH" [OF False this] False show ?thesis
      by (simp add: binade_up.simps [of x])
  qed
qed

lemma binade_down_bounds:
  "0 < x \<Longrightarrow> x < 1 \<Longrightarrow> binade_down x \<le> x \<and> x < 2 * binade_down x \<and> 0 < binade_down x"
proof (induction x rule: binade_down.induct)
  case (1 x)
  from "1.prems" have nb: "\<not> (x \<le> 0 \<or> 1 \<le> x)" by simp
  show ?case
  proof (cases "2 * x < 1")
    case True
    from "1.IH" [OF nb _ True] "1.prems" show ?thesis
      by (simp add: binade_down.simps [of x])
  next
    case False
    then have "binade_down (2 * x) = 1" by (simp add: binade_down.simps [of "2 * x"])
    with False "1.prems" show ?thesis
      by (simp add: binade_down.simps [of x])
  qed
qed

lemma binade_bounds: "0 < x \<Longrightarrow> binade x \<le> x \<and> x < 2 * binade x \<and> 0 < binade x"
  using binade_up_bounds [of x] binade_down_bounds [of x]
  by (cases "1 \<le> x") (simp_all add: binade_def)

lemma round_even_floor: "\<lfloor>y\<rfloor> \<le> round_even y \<and> round_even y \<le> \<lfloor>y\<rfloor> + 1"
  by (simp add: round_even_def Let_def)

lemma round_even_err: "\<bar>of_int (round_even y) - y\<bar> \<le> 1 / 2"
proof -
  have "of_int \<lfloor>y\<rfloor> \<le> y" "y < of_int \<lfloor>y\<rfloor> + 1" by linarith+
  then show ?thesis
    by (auto simp: round_even_def Let_def abs_le_iff not_less)
qed

lemma round_even_of_int: "round_even (of_int n) = n"
  by (simp add: round_even_def)

lemma fl_pos_err:
  assumes "0 < x"
  shows "\<bar>fl_pos x - x\<bar> \<le> x / 2 ^ 53"
proof -
  define u where "u = ulp x"
  from binade_bounds [OF assms] have u: "0 < u" and lo: "2 ^ 52 * u \<le> x"
    by (simp_all add: u_def ulp_def)
  have "fl_pos x - x = (of_int (round_even (x / u)) - x / u) * u"
    using u by (simp add: fl_pos_def u_def [symmetric] algebra_simps)
  then have "\<bar>fl_pos x - x\<bar> = \<bar>of_int (round_even (x / u)) - x / u\<bar> * u"
    using u by (simp add: abs_mult)
  also have "\<dots> \<le> (1 / 2) * u"
    using u round_even_err [of "x / u"] by (intro mult_right_mono) auto
  also have "\<dots> \<le> x / 2 ^ 53"
    using lo by simp
  finally show ?thesis .
qed

lemma fl_err: "\<bar>fl x - x\<bar> \<le> \<bar>x\<bar> / 2 ^ 53"
proof -
  consider "x = 0" | "0 < x" | "x < 0" by linarith
  then show ?thesis
  proof cases
    case 1
    then show ?thesis by (simp add: fl_def)
  next
    case 2
    with fl_pos_err [of x] show ?thesis by (simp add: fl_def)
  next
    case 3
    then have "\<bar>- fl_pos (- x) - x\<bar> = \<bar>fl_pos (- x) - (- x)\<bar>" by (simp add: abs_minus_commute)
    with 3 fl_pos_err [of "- x"] show ?thesis by (simp add: fl_def)
  qed
qed

lemma binade_double: "0 < x \<Longrightarrow> binade (2 * x) = 2 * binade x"
proof -
  assume x: "0 < x"
  consider "1 \<le> x" | "x < 1" "1 \<le> 2 * x" | "2 * x < 1" by linarith
  then show ?thesis
  proof cases
    case 1
    then have "\<not> 2 * x < 2" by simp
    then have "binade_up (2 * x) = 2 * binade_up x"
      by (simp add: binade_up.simps [of "2 * x"])
    with 1 show ?thesis by (simp add: binade_def)
  next
    case 2
    then have "binade_up (2 * x) = 1" by (simp add: binade_up.simps [of "2 * x"])
    moreover have "binade_down (2 * x) = 1" using 2 by (simp add: binade_down.simps [of "2 * x"])
    then have "binade_down x = 1 / 2" using 2 x by (simp add: binade_down.simps [of x])
    ultimately show ?thesis using 2 by (simp add: binade_def)
  next
    case 3
    then have "binade_down x = binade_down (2 * x) / 2"
      using x by (simp add: binade_down.simps [of x])
    with 3 x show ?thesis by (simp add: binade_def)
  qed
qed

lemma fl_double: "fl (2 * x) = 2 * fl x"
proof -
  have pos: "fl_pos (2 * y) = 2 * fl_pos y" if "0 < y" for y
  proof -
    from that have u: "ulp (2 * y) = 2 * ulp y" by (simp add: ulp_def binade_double)
    from binade_bounds [OF that] have "ulp y \<noteq> 0" by (simp add: ulp_def)
    then have "2 * y / (2 * ulp y) = y / ulp y" by simp
    then show ?thesis by (simp add: fl_pos_def u)
  qed
  consider "x = 0" | "0 < x" | "x < 0" by linarith
  then show ?thesis
  proof cases
    case 1
    then show ?thesis by (simp add: fl_def)
  next
    case 2
    with pos [of x] show ?thesis by (simp add: fl_def)
  next
    case 3
    with pos [of "- x"] show ?thesis by (simp add: fl_def)
  qed
qed

lemma binade_up_pow: "1 \<le> x \<Longrightarrow> \<exists>j::nat. binade_up x = 2 ^ j"
proof (induction x rule: binade_up.induct)
  case (1 x)
  show ?case
  proof (cases "x < 2")
    case True
    then have "binade_up x = 2 ^ 0" by (simp add: binade_up.simps [of x])
    then show ?thesis by blast
  next
    case False
    then have "1 \<le> x / 2" by simp
    from "1.IH" [OF False this] obtain j :: nat where "binade_up (x / 2) = 2 ^ j" by blast
    with False have "binade_up x = 2 ^ Suc j" by (simp add: binade_up.simps [of x])
    then show ?thesis by blast
  qed
qed

lemma binade_down_pow: "0 < x \<Longrightarrow> x < 1 \<Longrightarrow> \<exists>j::nat. binade_down x = 1 / 2 ^ j"
proof (induction x rule: binade_down.induct)
  case (1 x)
  from "1.prems" have nb: "\<not> (x \<le> 0 \<or> 1 \<le> x)" by simp
  show ?case
  proof (cases "2 * x < 1")
    case True
    from "1.IH" [OF nb _ True] "1.prems" obtain j :: nat where "binade_down (2 * x) = 1 / 2 ^ j"
      by auto
    with nb have "binade_down x = 1 / 2 ^ Suc j" by (simp add: binade_down.simps [of x])
    then show ?thesis by blast
  next
    case False
    then have "binade_down (2 * x) = 1" by (simp add: binade_down.simps [of "2 * x"])
    with nb have "binade_down x = 1 / 2 ^ Suc 0" by (simp add: binade_down.simps [of x])
    then show ?thesis by blast
  qed
qed

lemma binade_powi: "0 < x \<Longrightarrow> \<exists>k::int. binade x = 2 powi k"
proof (cases "1 \<le> x")
  case True
  from binade_up_pow [OF True] obtain j :: nat where "binade_up x = 2 ^ j" by blast
  with True have "binade x = 2 powi (int j)" by (simp add: binade_def)
  then show ?thesis by blast
next
  case False
  assume "0 < x"
  with False binade_down_pow [of x] obtain j :: nat where "binade_down x = 1 / 2 ^ j" by auto
  with False have "binade x = 2 powi (- int j)"
    by (simp add: binade_def power_int_minus divide_inverse)
  then show ?thesis by blast
qed

lemma binade_unique:
  assumes y: "0 < y" and p: "p = 2 powi k" and lo: "p \<le> y" and hi: "y < 2 * p"
  shows "binade y = p"
proof -
  from binade_powi [OF y] obtain j :: int where j: "binade y = 2 powi j" by blast
  from binade_bounds [OF y] j have jlo: "(2::rat) powi j \<le> y" and jhi: "y < 2 * 2 powi j"
    by simp_all
  have two: "2 * (2::rat) powi n = 2 powi (n + 1)" for n :: int
    by (simp add: power_int_add_1')
  have "\<not> j < k"
  proof
    assume "j < k"
    then have "(2::rat) powi (j + 1) \<le> 2 powi k" by (intro power_int_increasing) auto
    with jhi lo p two [of j] show False by simp
  qed
  moreover have "\<not> k < j"
  proof
    assume "k < j"
    then have "(2::rat) powi (k + 1) \<le> 2 powi j" by (intro power_int_increasing) auto
    with jlo hi p two [of k] show False by simp
  qed
  ultimately have "j = k" by simp
  with j p show ?thesis by simp
qed

lemma round_even_range:
  assumes "of_int a \<le> y" and "y < of_int b"
  shows "a \<le> round_even y \<and> round_even y \<le> b"
proof -
  from assms have "a \<le> \<lfloor>y\<rfloor>" "\<lfloor>y\<rfloor> < b" by (simp_all add: le_floor_iff floor_less_iff)
  with round_even_floor [of y] show ?thesis by linarith
qed

lemma fl_pos_fixed:
  assumes x: "0 < x"
  shows "fl_pos (fl_pos x) = fl_pos x \<and> 0 < fl_pos x"
proof -
  define u where "u = ulp x"
  define M where "M = round_even (x / u)"
  from binade_powi [OF x] obtain k :: int where k: "binade x = 2 powi k" by blast
  from binade_bounds [OF x] have u: "0 < u" and lo: "2 ^ 52 * u \<le> x" and hi: "x < 2 ^ 53 * u"
    and bu: "binade x = 2 ^ 52 * u"
    by (simp_all add: u_def ulp_def)
  from lo hi u have "of_int (2 ^ 52) \<le> x / u" "x / u < of_int (2 ^ 53)"
    by (simp_all add: le_divide_eq divide_less_eq)
  from round_even_range [OF this] have M: "2 ^ 52 \<le> M" "M \<le> 2 ^ 53" by (simp_all add: M_def)
  have y: "fl_pos x = of_int M * u" by (simp add: fl_pos_def u_def M_def)
  from M u have ypos: "0 < of_int M * u" by simp
  have Mr: "(2::rat) ^ 52 \<le> of_int M" using M(1) by (metis of_int_le_iff of_int_numeral of_int_power)
  show ?thesis
  proof (cases "M < 2 ^ 53")
    case True
    then have Mr': "of_int M < (2::rat) ^ 53" by (metis of_int_less_iff of_int_numeral of_int_power)
    have "binade (of_int M * u) = binade x"
    proof (rule binade_unique [OF ypos k])
      show "binade x \<le> of_int M * u" using Mr u by (simp add: bu)
      show "of_int M * u < 2 * binade x" using Mr' u by (simp add: bu)
    qed
    then have "ulp (of_int M * u) = u" by (simp add: ulp_def u_def)
    then have "fl_pos (of_int M * u) = of_int M * u"
      using u by (simp add: fl_pos_def round_even_of_int)
    with y ypos show ?thesis by simp
  next
    case False
    with M have Meq: "M = 2 ^ 53" by simp
    have k1: "2 * binade x = 2 powi (k + 1)" by (simp add: k power_int_add_1')
    have yeq: "of_int M * u = 2 * binade x" by (simp add: Meq bu)
    have "binade (2 * binade x) = 2 * binade x"
      by (rule binade_unique [OF _ k1]) (use binade_bounds [OF x] in simp_all)
    then have "binade (of_int M * u) = 2 * binade x" by (simp only: yeq)
    then have "ulp (of_int M * u) = 2 * u" by (simp add: ulp_def [of "of_int M * u"] bu)
    moreover have "of_int M * u / (2 * u) = of_int (2 ^ 52)" using u by (simp add: Meq)
    ultimately have "fl_pos (of_int M * u) = of_int M * u"
      by (simp add: fl_pos_def round_even_of_int del: of_int_numeral of_int_power) (simp add: Meq)
    with y ypos show ?thesis by simp
  qed
qed

lemma fl_idem: "fl (fl x) = fl x"
proof -
  consider "x = 0" | "0 < x" | "x < 0" by linarith
  then show ?thesis
  proof cases
    case 1
    then show ?thesis by (simp add: fl_def)
  next
    case 2
    with fl_pos_fixed [of x] show ?thesis by (simp add: fl_def)
  next
    case 3
    with fl_pos_fixed [of "- x"] show ?thesis by (simp add: fl_def)
  qed
qed

lemma fl_pos_of_int:
  assumes n: "0 < n" "n \<le> 2 ^ 53"
  shows "fl_pos (of_int n) = of_int n"
proof -
  let ?x = "of_int n :: rat"
  from n have x1: "1 \<le> ?x" by simp
  from binade_up_pow [OF x1] obtain j :: nat where j: "binade_up ?x = 2 ^ j" by blast
  from binade_up_bounds [OF x1] j have lo: "(2::rat) ^ j \<le> ?x" by simp
  have "?x \<le> of_int (2 ^ 53)" using n(2) by (simp only: of_int_le_iff)
  then have "?x \<le> (2::rat) ^ 53" by simp
  with lo have "(2::rat) ^ j \<le> 2 ^ 53" by (rule order_trans)
  then have j53: "j \<le> 53" by (simp only: power_increasing_iff [of "2::rat"] one_less_numeral_iff semiring_norm)
  have u: "ulp ?x = 2 ^ j / 2 ^ 52" using x1 j by (simp add: ulp_def binade_def)
  show ?thesis
  proof (cases "j \<le> 52")
    case True
    then have u': "ulp ?x = 1 / 2 ^ (52 - j)" by (simp add: u power_diff)
    have "?x / ulp ?x = of_int (n * 2 ^ (52 - j))" unfolding u' by simp
    then have "round_even (?x / ulp ?x) = n * 2 ^ (52 - j)" by (simp only: round_even_of_int)
    then have "fl_pos ?x = of_int (n * 2 ^ (52 - j)) * ulp ?x"
      by (simp only: fl_pos_def)
    also have "\<dots> = ?x" unfolding u' by simp
    finally show ?thesis .
  next
    case False
    with j53 have j: "j = 53" by simp
    with lo have "of_int (2 ^ 53) \<le> ?x" by simp
    then have "2 ^ 53 \<le> n" by (simp only: of_int_le_iff)
    with n have neq: "n = 2 ^ 53" by simp
    have u2: "ulp ?x = 2" by (simp add: u j)
    have "?x / ulp ?x = of_int (2 ^ 52)" unfolding u2 by (simp add: neq)
    then have "round_even (?x / ulp ?x) = 2 ^ 52" by (simp only: round_even_of_int)
    then have "fl_pos ?x = of_int (2 ^ 52) * ulp ?x" by (simp only: fl_pos_def)
    also have "\<dots> = ?x" unfolding u2 by (simp add: neq)
    finally show ?thesis .
  qed
qed

lemma fl_of_int: "\<bar>n\<bar> \<le> 2 ^ 53 \<Longrightarrow> fl (of_int n) = of_int n"
  using fl_pos_of_int [of n] fl_pos_of_int [of "- n"]
  by (cases "n = 0"; cases "0 < n") (simp_all add: fl_def)

lemma fl_upper: "0 \<le> x \<Longrightarrow> fl x \<le> x * (1 + 1 / 2 ^ 53)"
proof -
  assume "0 \<le> x"
  with fl_err [of x] have "\<bar>fl x - x\<bar> \<le> x / 2 ^ 53" by simp
  then have "fl x \<le> x + x / 2 ^ 53" by linarith
  then show ?thesis by (simp add: distrib_left)
qed

lemma fl_lower: "0 \<le> x \<Longrightarrow> x * (1 - 1 / 2 ^ 53) \<le> fl x"
proof -
  assume "0 \<le> x"
  with fl_err [of x] have "\<bar>fl x - x\<bar> \<le> x / 2 ^ 53" by simp
  then have "x - x / 2 ^ 53 \<le> fl x" by linarith
  then show ?thesis by (simp add: right_diff_distrib)
qed

lemma fl_nonneg: "0 \<le> x \<Longrightarrow> 0 \<le> fl x"
proof -
  assume x: "0 \<le> x"
  then have "0 \<le> x * (1 - 1 / 2 ^ 53)" by simp
  with fl_lower [OF x] show ?thesis by linarith
qed

lemma fl_nonpos: "x \<le> 0 \<Longrightarrow> fl x \<le> 0"
proof -
  assume x: "x \<le> 0"
  with fl_err [of x] have "\<bar>fl x - x\<bar> \<le> - x / 2 ^ 53" by simp
  then have "fl x \<le> x - x / 2 ^ 53" by linarith
  also have "\<dots> = x * (1 - 1 / 2 ^ 53)" by (simp add: right_diff_distrib)
  also have "\<dots> \<le> 0" using x by (simp add: mult_le_0_iff)
  finally show ?thesis .
qed

lemma fl_examples: "fl 1 = 1" "fl 2 = 2" "fl 99999 = 99999" "fl 60000 = 60000"
  using fl_of_int [of 1] fl_of_int [of 2] fl_of_int [of 99999] fl_of_int [of 60000] by simp_all

lemma fl_le_eps: "0 \<le> x \<Longrightarrow> fl x \<le> x * (1 + eps)"
  unfolding eps_def by (rule fl_upper)

lemma fl_ge_eps: "0 \<le> x \<Longrightarrow> x * (1 - eps) \<le> fl x"
  unfolding eps_def by (rule fl_lower)

lemma eps_range: "0 < eps" "eps < 1"
  by (simp_all add: eps_def)

lemma floor_rat_numeral: "\<lfloor>numeral a / numeral b :: rat\<rfloor> = numeral a div numeral b"
  using floor_divide_of_int_eq [of "numeral a" "numeral b", where ?'a = rat] by simp

lemmas fl_eval = fl_def fl_pos_def ulp_def binade_def binade_up.simps binade_down.simps
  round_even_def Let_def floor_rat_numeral

subsection \<open>Scores and ranks\<close>

lemma re_test_sublist:
  "re_test t \<longleftrightarrow> (\<exists>w \<in> set boost_words. sublist (map canon (ustr w)) (map canon t))"
proof (induction t)
  case Nil
  show ?case by (simp add: keyword_at_def lit_def boost_words_def ustr_def)
next
  case (Cons c cs)
  show ?case
    unfolding re_test.simps Cons.IH
    by (auto simp: keyword_at_def lit_def boost_words_def sublist_Cons_right)
qed

lemma entry_score_boost:
  "entry_score now parse i
     = fl (keywordBoost_spec (case rss_title i of None \<Rightarrow> [] | Some t \<Rightarrow> t)
            / max 1 (ageMin now parse i))"
proof -
  let ?m = "max 1 (ageMin now parse i)"
  have one: "fl (1 * fl (1 / ?m)) = fl (1 / ?m)" by (simp add: fl_idem)
  have "fl (2 * fl (1 / ?m)) = 2 * fl (1 / ?m)" by (simp only: fl_double fl_idem)
  also have "\<dots> = fl (2 * (1 / ?m))" by (simp only: fl_double)
  finally have two: "fl (2 * fl (1 / ?m)) = fl (2 / ?m)" by simp
  show ?thesis
    using one two by (simp add: entry_score_def keywordBoost_spec_def re_test_sublist)
qed

lemma score_chain_upper:
  assumes A: "0 < A" "A \<le> m" and b: "0 \<le> b" "b \<le> 2"
  shows "fl (b * fl (1 / m)) \<le> 2 * (1 + eps) * (1 + eps) / A"
proof -
  from A have m: "0 < m" by simp
  then have inv: "0 \<le> 1 / m" by simp
  have r0: "0 \<le> fl (1 / m)" by (rule fl_nonneg [OF inv])
  have "fl (1 / m) \<le> (1 / m) * (1 + eps)" by (rule fl_le_eps [OF inv])
  also have "\<dots> \<le> (1 / A) * (1 + eps)"
    using A m eps_range by (intro mult_right_mono frac_le) auto
  finally have r: "fl (1 / m) \<le> (1 + eps) / A" by simp
  have br0: "0 \<le> b * fl (1 / m)" using b r0 by simp
  have "b * fl (1 / m) \<le> 2 * ((1 + eps) / A)"
    using b r r0 by (intro mult_mono) auto
  then have "b * fl (1 / m) * (1 + eps) \<le> 2 * ((1 + eps) / A) * (1 + eps)"
    using eps_range by (intro mult_right_mono) auto
  with fl_le_eps [OF br0] show ?thesis by simp
qed

lemma score_chain_lower:
  assumes m: "1 \<le> m" "m \<le> A" and b: "1 \<le> b"
  shows "(1 - eps) * (1 - eps) / A \<le> fl (b * fl (1 / m))"
proof -
  from m have A: "0 < A" and mp: "0 < m" by simp_all
  then have inv: "0 \<le> 1 / m" by simp
  have e: "0 \<le> 1 - eps" using eps_range by simp
  have "(1 / A) * (1 - eps) \<le> (1 / m) * (1 - eps)"
    using m mp e by (intro mult_right_mono frac_le) auto
  also have "\<dots> \<le> fl (1 / m)" by (rule fl_ge_eps [OF inv])
  finally have r: "(1 - eps) / A \<le> fl (1 / m)" by simp
  have r0: "0 \<le> fl (1 / m)" by (rule fl_nonneg [OF inv])
  have "fl (1 / m) \<le> b * fl (1 / m)" using b r0 by (simp add: mult_le_cancel_right1)
  with r have br: "(1 - eps) / A \<le> b * fl (1 / m)" by simp
  then have br0: "0 \<le> b * fl (1 / m)" using b r0 by simp
  have "(1 - eps) / A * (1 - eps) \<le> b * fl (1 / m) * (1 - eps)"
    using br e by (intro mult_right_mono) auto
  with fl_ge_eps [OF br0] show ?thesis by simp
qed

lemma boost_range:
  "1 \<le> (if re_test t then 2 else 1 :: rat) \<and> (if re_test t then 2 else 1 :: rat) \<le> 2"
  by simp

lemma age_undated_ge:
  assumes clock: "99999 * 60000 \<le> now"
    and undated: "pub_getTime parse (rss_pubDate i) = None \<or> pub_getTime parse (rss_pubDate i) = Some 0"
  shows "99999 * (1 - eps) * (1 - eps) \<le> ageMin now parse i"
proof -
  have e: "0 \<le> 1 - eps" "1 - eps \<le> 1" using eps_range by simp_all
  from undated show ?thesis
  proof
    assume "pub_getTime parse (rss_pubDate i) = None"
    then have "ageMin now parse i = 99999" by (simp add: ageMin_def)
    moreover have "99999 * (1 - eps) * (1 - eps) \<le> 99999 * 1 * (1::rat)"
      using e by (intro mult_mono) auto
    ultimately show ?thesis by simp
  next
    assume "pub_getTime parse (rss_pubDate i) = Some 0"
    then have age: "ageMin now parse i = fl (fl (of_int now) / 60000)" by (simp add: ageMin_def)
    from clock have "(of_int (99999 * 60000) :: rat) \<le> of_int now" by (simp only: of_int_le_iff)
    then have n: "(99999 * 60000 :: rat) \<le> of_int now" by simp
    then have n0: "(0::rat) \<le> of_int now" by simp
    have "99999 * 60000 * (1 - eps) \<le> of_int now * (1 - eps)"
      using n e by (intro mult_right_mono) auto
    also have "\<dots> \<le> fl (of_int now)" by (rule fl_ge_eps [OF n0])
    finally have d: "99999 * 60000 * (1 - eps) \<le> fl (of_int now)" .
    then have d0: "0 \<le> fl (of_int now) / 60000" using e by simp
    from d have "99999 * (1 - eps) \<le> fl (of_int now) / 60000" by simp
    then have "99999 * (1 - eps) * (1 - eps) \<le> fl (of_int now) / 60000 * (1 - eps)"
      using e by (intro mult_right_mono) auto
    also have "\<dots> \<le> fl (fl (of_int now) / 60000)" by (rule fl_ge_eps [OF d0])
    finally show ?thesis by (simp add: age)
  qed
qed

lemma score_undated_le:
  assumes clock: "99999 * 60000 \<le> now"
    and undated: "pub_getTime parse (rss_pubDate i) = None \<or> pub_getTime parse (rss_pubDate i) = Some 0"
  shows "entry_score now parse i \<le> 2 * (1 + eps) * (1 + eps) / (99999 * (1 - eps) * (1 - eps))"
proof -
  have A: "0 < 99999 * (1 - eps) * (1 - eps)" using eps_range by simp
  have "99999 * (1 - eps) * (1 - eps) \<le> max 1 (ageMin now parse i)"
    using age_undated_ge [OF clock undated] by simp
  from score_chain_upper [OF A this, of "if re_test (case rss_title i of None \<Rightarrow> [] | Some t \<Rightarrow> t) then 2 else 1"]
  show ?thesis by (simp add: entry_score_def)
qed

lemma age_recent_le:
  assumes dated: "pub_getTime parse (rss_pubDate i) = Some t"
    and recent: "2 * (now - t) < 99999 * 60000"
  shows "ageMin now parse i \<le> 2999969999 * (1 + eps) * (1 + eps) / 60000"
proof -
  have e: "1 \<le> 1 + eps" using eps_range by simp
  have age: "ageMin now parse i = fl (fl (of_int (now - t)) / 60000)"
    using dated by (simp add: ageMin_def)
  from recent have "now - t \<le> 2999969999" by simp
  then have "(of_int (now - t) :: rat) \<le> of_int 2999969999" by (simp only: of_int_le_iff)
  then have D: "(of_int (now - t) :: rat) \<le> 2999969999" by simp
  have pos: "(0::rat) \<le> 2999969999 * (1 + eps) * (1 + eps) / 60000" using eps_range by simp
  show ?thesis
  proof (cases "now - t \<le> 0")
    case True
    then have "(of_int (now - t) :: rat) \<le> 0" by simp
    then have "fl (of_int (now - t)) / 60000 \<le> 0" using fl_nonpos [of "of_int (now - t)"] by simp
    then have "fl (fl (of_int (now - t)) / 60000) \<le> 0" by (rule fl_nonpos)
    with pos show ?thesis by (simp add: age)
  next
    case False
    then have D0: "(0::rat) \<le> of_int (now - t)" by simp
    have "fl (of_int (now - t)) \<le> of_int (now - t) * (1 + eps)" by (rule fl_le_eps [OF D0])
    also have "\<dots> \<le> 2999969999 * (1 + eps)" using D e by (intro mult_right_mono) auto
    finally have d: "fl (of_int (now - t)) \<le> 2999969999 * (1 + eps)" .
    have d0: "0 \<le> fl (of_int (now - t)) / 60000" using fl_nonneg [OF D0] by simp
    have "fl (fl (of_int (now - t)) / 60000) \<le> fl (of_int (now - t)) / 60000 * (1 + eps)"
      by (rule fl_le_eps [OF d0])
    also have "\<dots> \<le> 2999969999 * (1 + eps) / 60000 * (1 + eps)"
      using d e by (intro mult_right_mono divide_right_mono) auto
    finally show ?thesis by (simp add: age)
  qed
qed

lemma score_recent_ge:
  assumes dated: "pub_getTime parse (rss_pubDate i) = Some t"
    and recent: "2 * (now - t) < 99999 * 60000"
  shows "(1 - eps) * (1 - eps) / (2999969999 * (1 + eps) * (1 + eps) / 60000)
           \<le> entry_score now parse i"
proof -
  have "(1::rat) \<le> 2999969999 * 1 * 1 / 60000" by simp
  also have "\<dots> \<le> 2999969999 * (1 + eps) * (1 + eps) / 60000"
    using eps_range by (intro divide_right_mono mult_mono) auto
  finally have one: "1 \<le> 2999969999 * (1 + eps) * (1 + eps) / 60000" .
  have m1: "1 \<le> max 1 (ageMin now parse i)" by simp
  have m2: "max 1 (ageMin now parse i) \<le> 2999969999 * (1 + eps) * (1 + eps) / 60000"
    using age_recent_le [OF dated recent] one by simp
  from score_chain_lower [OF m1 m2, of "if re_test (case rss_title i of None \<Rightarrow> [] | Some t \<Rightarrow> t) then 2 else 1"]
  show ?thesis by (simp add: entry_score_def)
qed

lemma undated_bound_small:
  "2 * (1 + eps) * (1 + eps) / (99999 * (1 - eps) * (1 - eps)) \<le> 201 / 10000000"
  by (simp add: eps_def)

lemma bounds_separate:
  "2 * (1 + eps) * (1 + eps) / (99999 * (1 - eps) * (1 - eps))
     < (1 - eps) * (1 - eps) / (2999969999 * (1 + eps) * (1 + eps) / 60000)"
  by (simp add: eps_def)

lemma undated_below_recent:
  assumes "99999 * 60000 \<le> now"
    and "pub_getTime parse (rss_pubDate i) = None \<or> pub_getTime parse (rss_pubDate i) = Some 0"
    and "pub_getTime parse (rss_pubDate j) = Some t"
    and "2 * (now' - t) < 99999 * 60000"
  shows "entry_score now parse i \<le> 201 / 10000000
    \<and> entry_score now parse i < entry_score now' parse j"
  using score_undated_le [OF assms(1,2)] score_recent_ge [OF assms(3,4)]
    undated_bound_small bounds_separate
  by linarith

lemma pub_getTime_range: "pub_getTime parse p = Some t \<Longrightarrow> \<bar>t\<bar> \<le> 8640000000000000"
  by (auto simp: pub_getTime_def split: option.splits if_splits)

lemma fl_abs_le: "\<bar>fl x\<bar> \<le> \<bar>x\<bar> * (1 + eps)"
proof -
  have "\<bar>fl x\<bar> \<le> \<bar>x\<bar> + \<bar>fl x - x\<bar>" by linarith
  also have "\<dots> \<le> \<bar>x\<bar> + \<bar>x\<bar> / 2 ^ 53" using fl_err [of x] by simp
  also have "\<dots> = \<bar>x\<bar> * (1 + eps)" by (simp add: eps_def distrib_left)
  finally show ?thesis .
qed

lemma ageMin_magnitude:
  assumes now: "\<bar>now\<bar> \<le> 8640000000000000"
  shows "\<bar>ageMin now parse i\<bar> \<le> 2 ^ 39"
proof (cases "pub_getTime parse (rss_pubDate i)")
  case None
  then show ?thesis by (simp add: ageMin_def)
next
  case (Some t)
  have e: "0 \<le> 1 + eps" using eps_range by simp
  from pub_getTime_range [OF Some] now have "\<bar>now - t\<bar> \<le> 17280000000000000" by linarith
  then have "(of_int \<bar>now - t\<bar> :: rat) \<le> of_int 17280000000000000" by (simp only: of_int_le_iff)
  then have D: "\<bar>of_int (now - t) :: rat\<bar> \<le> 17280000000000000" by simp
  have "\<bar>fl (of_int (now - t))\<bar> \<le> \<bar>of_int (now - t)\<bar> * (1 + eps)" by (rule fl_abs_le)
  also have "\<dots> \<le> 17280000000000000 * (1 + eps)" using D e by (intro mult_right_mono) auto
  finally have d: "\<bar>fl (of_int (now - t)) / 60000\<bar> \<le> 288000000000 * (1 + eps)" by simp
  have "\<bar>fl (fl (of_int (now - t)) / 60000)\<bar> \<le> \<bar>fl (of_int (now - t)) / 60000\<bar> * (1 + eps)"
    by (rule fl_abs_le)
  also have "\<dots> \<le> 288000000000 * (1 + eps) * (1 + eps)"
    using d e by (intro mult_right_mono) auto
  also have "\<dots> \<le> 2 ^ 39" by (simp add: eps_def)
  finally show ?thesis using Some by (simp add: ageMin_def)
qed

lemma entry_score_magnitude:
  assumes now: "\<bar>now\<bar> \<le> 8640000000000000"
  shows "1 / 2 ^ 40 \<le> entry_score now parse i \<and> entry_score now parse i \<le> 3"
proof -
  let ?b = "if re_test (case rss_title i of None \<Rightarrow> [] | Some t \<Rightarrow> t) then 2 else 1 :: rat"
  have m1: "1 \<le> max 1 (ageMin now parse i)" by simp
  have m2: "max 1 (ageMin now parse i) \<le> 2 ^ 39"
    using ageMin_magnitude [OF now, of parse i] by simp
  have "1 / 2 ^ 40 \<le> (1 - eps) * (1 - eps) / 2 ^ 39" by (simp add: eps_def)
  also have "\<dots> \<le> fl (?b * fl (1 / max 1 (ageMin now parse i)))"
    by (rule score_chain_lower [OF m1 m2]) simp
  finally have lo: "1 / 2 ^ 40 \<le> entry_score now parse i" by (simp add: entry_score_def)
  have "fl (?b * fl (1 / max 1 (ageMin now parse i))) \<le> 2 * (1 + eps) * (1 + eps) / 1"
    by (rule score_chain_upper [OF _ m1]) simp_all
  also have "\<dots> \<le> 3" by (simp add: eps_def)
  finally have "entry_score now parse i \<le> 3" by (simp add: entry_score_def)
  with lo show ?thesis by simp
qed

lemma ageMin_dated:
  assumes "pub_getTime parse (rss_pubDate i) = Some t"
  shows "ageMin now parse i = fl (fl (of_int (now - t)) / 60000)"
    and "\<bar>now - t\<bar> \<le> 2 ^ 53 \<Longrightarrow> ageMin now parse i = fl (of_int (now - t) / 60000)"
proof -
  show "ageMin now parse i = fl (fl (of_int (now - t)) / 60000)"
    using assms by (simp add: ageMin_def)
  then show "ageMin now parse i = fl (of_int (now - t) / 60000)" if "\<bar>now - t\<bar> \<le> 2 ^ 53"
    using fl_of_int [OF that] by simp
qed

lemma api_breaking_ranked:
  "\<exists>ranked. mset ranked = mset (map (pushed safeDomain parse) collected)
     \<and> sorted_wrt (\<lambda>a b. score b \<le> score a) ranked
     \<and> (\<forall>k. filter (\<lambda>x. score x = k) ranked
              = filter (\<lambda>x. score x = k) (map (pushed safeDomain parse) collected))
     \<and> api_breaking safeDomain parse collected = take 5 ranked"
proof -
  let ?items = "map (pushed safeDomain parse) collected"
  let ?ranked = "sort_key (\<lambda>a. - score a) ?items"
  have 1: "mset ?ranked = mset ?items" by simp
  have 2: "sorted_wrt (\<lambda>a b. score b \<le> score a) ?ranked"
    using sorted_sort_key [of "\<lambda>a. - score a" ?items] by (simp add: sorted_wrt_map)
  have 3: "filter (\<lambda>x. score x = k) ?ranked = filter (\<lambda>x. score x = k) ?items" for k
    using sort_key_stable [of "\<lambda>a. - score a" "- k" ?items] by simp
  have 4: "api_breaking safeDomain parse collected = take 5 ?ranked"
    by (simp add: api_breaking_def)
  from 1 2 3 4 show ?thesis by blast
qed

lemma api_breaking_rank_below:
  assumes x: "x \<in> set (map (pushed safeDomain parse) collected)"
    and y: "y \<in> set (map (pushed safeDomain parse) collected)"
    and lt: "score x < score y"
    and m: "m < length (api_breaking safeDomain parse collected)"
    and at: "api_breaking safeDomain parse collected ! m = x"
  shows "\<exists>n<m. api_breaking safeDomain parse collected ! n = y"
proof -
  let ?ranked = "sort_key (\<lambda>a. - score a) (map (pushed safeDomain parse) collected)"
  have resp: "api_breaking safeDomain parse collected = take 5 ?ranked"
    by (simp add: api_breaking_def)
  from m have m5: "m < 5" and ml: "m < length ?ranked" by (simp_all add: resp)
  from at m5 have xm: "?ranked ! m = x" by (simp add: resp)
  from y have "y \<in> set ?ranked" by simp
  then have "\<exists>n<length ?ranked. ?ranked ! n = y" by (simp only: in_set_conv_nth)
  then obtain n where n: "n < length ?ranked" "?ranked ! n = y" by blast
  have srt: "sorted_wrt (\<lambda>a b. score b \<le> score a) ?ranked"
    using sorted_sort_key [of "\<lambda>a. - score a" "map (pushed safeDomain parse) collected"]
    by (simp add: sorted_wrt_map)
  have "n < m"
  proof (rule ccontr)
    assume "\<not> n < m"
    then consider "n = m" | "m < n" by linarith
    then show False
    proof cases
      case 1
      with n xm lt show False by simp
    next
      case 2
      from sorted_wrt_nth_less [OF srt 2 n(1)] have "score (?ranked ! n) \<le> score (?ranked ! m)" .
      with n xm lt show False by simp
    qed
  qed
  moreover from this m5 n have "api_breaking safeDomain parse collected ! n = y"
    by (simp add: resp)
  ultimately show ?thesis by blast
qed

text \<open>The scores of three concrete entries.\<close>

lemma example_scores:
  "entry_score 1700000000000 example_parse (example_entry ''Live: match update'' (Some ''soon''))
     = 2951508566879197 / 147573952589676412928
   \<and> entry_score 1700000000000 example_parse
           (example_entry ''Local news'' (Some ''Tue, 14 Nov 2023 22:12:20 GMT'')) = 1
   \<and> entry_score 1700000000000 example_parse
           (example_entry ''Breaking: storm'' (Some ''Tue, 14 Nov 2023 22:12:20 GMT'')) = 2"
proof -
  have a: "fl (1 / 99999) = 2951508566879197 / 295147905179352825856" by (simp add: fl_eval)
  have b: "fl (fl (of_int (1700000000000 - 1699999940000)) / 60000) = 1"
    using fl_of_int [of 60000] by (simp add: fl_examples)
  have t: "re_test (ustr ''Live: match update'')" "\<not> re_test (ustr ''Local news'')"
    "re_test (ustr ''Breaking: storm'')"
    by (simp_all add: keyword_at_def lit_def canon_def ustr_def)
  show ?thesis
    using a b t
    by (simp add: entry_score_def ageMin_def pub_getTime_def example_entry_def example_parse_def
        fl_double fl_idem fl_examples)
qed

text \<open>
  Claim C3. The score of an entry is the keyword boost divided by the larger of 1
  and the age in minutes, as a double division; the boost is 2 exactly when the
  title matches one of the words without regard to case; the age is the clock minus
  the publish time, in minutes, in double arithmetic (below 2^53 milliseconds the
  subtraction is exact). An unparseable or out-of-range publish time gives the age
  99999, a missing one the age since the epoch. With a clock at least 99999 minutes
  past the epoch, such an entry scores at most 0.0000201, and strictly less than
  every entry whose valid publish time is less than 49999.5 minutes old, whatever
  the titles; and wherever the item pushed for it stands in the answer, the item
  pushed for the dated entry stands before it. Every pushed item carries the score
  of its own entry, and the answer is the first five of the pushed items in
  descending order of score, equal scores in the order they were pushed.
\<close>

theorem breaking_score:
  "entry_score now parse i
      = fl (keywordBoost_spec (case rss_title i of None \<Rightarrow> [] | Some t \<Rightarrow> t)
             / max 1 (ageMin now parse i))
   \<and> (\<forall>s t. rss_pubDate i = Some s \<and> s \<noteq> [] \<and> parse s = Some t \<and> \<bar>t\<bar> \<le> 8640000000000000
         \<longrightarrow> ageMin now parse i = fl (fl (of_int (now - t)) / 60000)
             \<and> (\<bar>now - t\<bar> \<le> 2 ^ 53 \<longrightarrow> ageMin now parse i = fl (of_int (now - t) / 60000)))
   \<and> (\<forall>s. rss_pubDate i = Some s \<and> s \<noteq> []
           \<and> (parse s = None \<or> (\<exists>t. parse s = Some t \<and> 8640000000000000 < \<bar>t\<bar>))
         \<longrightarrow> ageMin now parse i = 99999)
   \<and> (rss_pubDate i = None \<or> rss_pubDate i = Some []
         \<longrightarrow> ageMin now parse i = fl (fl (of_int now) / 60000))
   \<and> ((rss_pubDate i = None \<or> rss_pubDate i = Some []
         \<or> (\<exists>s. rss_pubDate i = Some s \<and> parse s = None))
        \<and> 99999 * 60000 \<le> now
       \<longrightarrow> entry_score now parse i \<le> 201 / 10000000
           \<and> (\<forall>now' j s t. rss_pubDate j = Some s \<and> s \<noteq> [] \<and> parse s = Some t
                  \<and> \<bar>t\<bar> \<le> 8640000000000000 \<and> 2 * (now' - t) < 99999 * 60000
                \<longrightarrow> entry_score now parse i < entry_score now' parse j
                    \<and> (\<forall>url url' m.
                          (now, url, i) \<in> set collected \<and> (now', url', j) \<in> set collected
                          \<and> m < length (api_breaking safeDomain parse collected)
                          \<and> api_breaking safeDomain parse collected ! m
                              = pushed safeDomain parse (now, url, i)
                        \<longrightarrow> (\<exists>n<m. api_breaking safeDomain parse collected ! n
                              = pushed safeDomain parse (now', url', j)))))
   \<and> (\<forall>url. pushed safeDomain parse (now, url, i)
         = \<lparr>b_title = rss_title i, b_link = rss_link i, b_source = safeDomain url,
            score = entry_score now parse i\<rparr>)
   \<and> (\<exists>ranked. mset ranked = mset (map (pushed safeDomain parse) collected)
         \<and> sorted_wrt (\<lambda>a b. score b \<le> score a) ranked
         \<and> (\<forall>k. filter (\<lambda>x. score x = k) ranked
                = filter (\<lambda>x. score x = k) (map (pushed safeDomain parse) collected))
         \<and> api_breaking safeDomain parse collected = take 5 ranked)"
proof (intro conjI allI impI)
  show "entry_score now parse i
      = fl (keywordBoost_spec (case rss_title i of None \<Rightarrow> [] | Some t \<Rightarrow> t)
             / max 1 (ageMin now parse i))"
    by (rule entry_score_boost)
next
  fix s :: string and t :: int
  assume a: "rss_pubDate i = Some s \<and> s \<noteq> [] \<and> parse s = Some t \<and> \<bar>t\<bar> \<le> 8640000000000000"
  then have d: "pub_getTime parse (rss_pubDate i) = Some t" by (simp add: pub_getTime_def)
  show "ageMin now parse i = fl (fl (of_int (now - t)) / 60000)"
    by (rule ageMin_dated(1) [OF d])
  show "ageMin now parse i = fl (of_int (now - t) / 60000)" if "\<bar>now - t\<bar> \<le> 2 ^ 53"
    by (rule ageMin_dated(2) [OF d that])
next
  fix s :: string
  assume "rss_pubDate i = Some s \<and> s \<noteq> []
           \<and> (parse s = None \<or> (\<exists>t. parse s = Some t \<and> 8640000000000000 < \<bar>t\<bar>))"
  then have "pub_getTime parse (rss_pubDate i) = None" by (auto simp: pub_getTime_def)
  then show "ageMin now parse i = 99999" by (simp add: ageMin_def)
next
  assume "rss_pubDate i = None \<or> rss_pubDate i = Some []"
  then have "pub_getTime parse (rss_pubDate i) = Some 0" by (auto simp: pub_getTime_def)
  then show "ageMin now parse i = fl (fl (of_int now) / 60000)" by (simp add: ageMin_def)
next
  assume a: "(rss_pubDate i = None \<or> rss_pubDate i = Some []
         \<or> (\<exists>s. rss_pubDate i = Some s \<and> parse s = None)) \<and> 99999 * 60000 \<le> now"
  then have u: "pub_getTime parse (rss_pubDate i) = None
      \<or> pub_getTime parse (rss_pubDate i) = Some 0"
    by (auto simp: pub_getTime_def)
  from a have c: "99999 * 60000 \<le> now" by simp
  have "entry_score now parse i \<le> 2 * (1 + eps) * (1 + eps) / (99999 * (1 - eps) * (1 - eps))"
    by (rule score_undated_le [OF c u])
  with undated_bound_small show "entry_score now parse i \<le> 201 / 10000000" by linarith
next
  fix now' :: int and j :: rss_item and s :: string and t :: int
  assume a: "(rss_pubDate i = None \<or> rss_pubDate i = Some []
         \<or> (\<exists>s. rss_pubDate i = Some s \<and> parse s = None)) \<and> 99999 * 60000 \<le> now"
    and b: "rss_pubDate j = Some s \<and> s \<noteq> [] \<and> parse s = Some t
                  \<and> \<bar>t\<bar> \<le> 8640000000000000 \<and> 2 * (now' - t) < 99999 * 60000"
  from a have u: "pub_getTime parse (rss_pubDate i) = None
      \<or> pub_getTime parse (rss_pubDate i) = Some 0"
    by (auto simp: pub_getTime_def)
  from a have c: "99999 * 60000 \<le> now" by simp
  from b have d: "pub_getTime parse (rss_pubDate j) = Some t" by (simp add: pub_getTime_def)
  from b have r: "2 * (now' - t) < 99999 * 60000" by simp
  from undated_below_recent [OF c u d r]
  show lt: "entry_score now parse i < entry_score now' parse j" by simp
  fix url url' :: string and m :: nat
  assume p: "(now, url, i) \<in> set collected \<and> (now', url', j) \<in> set collected
      \<and> m < length (api_breaking safeDomain parse collected)
      \<and> api_breaking safeDomain parse collected ! m = pushed safeDomain parse (now, url, i)"
  then have x: "pushed safeDomain parse (now, url, i) \<in> set (map (pushed safeDomain parse) collected)"
    and y: "pushed safeDomain parse (now', url', j) \<in> set (map (pushed safeDomain parse) collected)"
    by simp_all
  have sc: "score (pushed safeDomain parse (now, url, i)) < score (pushed safeDomain parse (now', url', j))"
    using lt by (simp add: pushed_def)
  from p have m: "m < length (api_breaking safeDomain parse collected)"
    and at: "api_breaking safeDomain parse collected ! m = pushed safeDomain parse (now, url, i)"
    by simp_all
  show "\<exists>n<m. api_breaking safeDomain parse collected ! n = pushed safeDomain parse (now', url', j)"
    by (rule api_breaking_rank_below [OF x y sc m at])
next
  fix url :: string
  show "pushed safeDomain parse (now, url, i)
         = \<lparr>b_title = rss_title i, b_link = rss_link i, b_source = safeDomain url,
            score = entry_score now parse i\<rparr>"
    by (simp add: pushed_def)
next
  show "\<exists>ranked. mset ranked = mset (map (pushed safeDomain parse) collected)
         \<and> sorted_wrt (\<lambda>a b. score b \<le> score a) ranked
         \<and> (\<forall>k. filter (\<lambda>x. score x = k) ranked
                = filter (\<lambda>x. score x = k) (map (pushed safeDomain parse) collected))
         \<and> api_breaking safeDomain parse collected = take 5 ranked"
    by (rule api_breaking_ranked)
qed

theorem breaking_score_witness:
  "99999 * 60000 \<le> (1700000000000 :: int)
   \<and> 2 * (1700000000000 - 1699999940000) < (99999 * 60000 :: int)
   \<and> ageMin 1700000000000 example_parse (example_entry ''Live: match update'' (Some ''soon''))
       = 99999
   \<and> ageMin 1700000000000 example_parse
         (example_entry ''Local news'' (Some ''Tue, 14 Nov 2023 22:12:20 GMT'')) = 1
   \<and> ageMin 1700000000000 example_parse (example_entry ''Delivery strike'' None)
       = 7605671253333333 / 268435456
   \<and> entry_score 1700000000000 example_parse (example_entry ''Live: match update'' (Some ''soon''))
       \<le> 201 / 10000000
   \<and> entry_score 1700000000000 example_parse (example_entry ''Live: match update'' (Some ''soon''))
       < entry_score 1700000000000 example_parse
           (example_entry ''Local news'' (Some ''Tue, 14 Nov 2023 22:12:20 GMT''))
   \<and> api_breaking id example_parse
         [(1700000000000, ''https://a.example/feed'',
             example_entry ''Live: match update'' (Some ''soon'')),
          (1700000000000, ''https://a.example/feed'',
             example_entry ''Local news'' (Some ''Tue, 14 Nov 2023 22:12:20 GMT''))] ! 0
       = pushed id example_parse (1700000000000, ''https://a.example/feed'',
             example_entry ''Local news'' (Some ''Tue, 14 Nov 2023 22:12:20 GMT''))"
proof -
  let ?now = "1700000000000 :: int"
  let ?i = "example_entry ''Live: match update'' (Some ''soon'')"
  let ?j = "example_entry ''Local news'' (Some ''Tue, 14 Nov 2023 22:12:20 GMT'')"
  let ?k = "example_entry ''Delivery strike'' None"
  let ?u = "''https://a.example/feed''"
  let ?c = "[(?now, ?u, ?i), (?now, ?u, ?j)]"
  have h1: "(rss_pubDate ?i = None \<or> rss_pubDate ?i = Some []
         \<or> (\<exists>s. rss_pubDate ?i = Some s \<and> example_parse s = None))
        \<and> 99999 * 60000 \<le> ?now"
    by (simp add: example_entry_def example_parse_def)
  have h2: "rss_pubDate ?j = Some ''Tue, 14 Nov 2023 22:12:20 GMT''
      \<and> ''Tue, 14 Nov 2023 22:12:20 GMT'' \<noteq> []
      \<and> example_parse ''Tue, 14 Nov 2023 22:12:20 GMT'' = Some 1699999940000
      \<and> \<bar>1699999940000 :: int\<bar> \<le> 8640000000000000
      \<and> 2 * (?now - 1699999940000) < 99999 * 60000"
    by (simp add: example_entry_def example_parse_def)
  have h3: "rss_pubDate ?i = Some ''soon'' \<and> ''soon'' \<noteq> []
      \<and> (example_parse ''soon'' = None
           \<or> (\<exists>t. example_parse ''soon'' = Some t \<and> 8640000000000000 < \<bar>t\<bar>))"
    by (simp add: example_entry_def example_parse_def)
  have h4: "rss_pubDate ?k = None \<or> rss_pubDate ?k = Some []"
    by (simp add: example_entry_def)
  have h5: "(?now, ?u, ?i) \<in> set ?c \<and> (?now, ?u, ?j) \<in> set ?c" by simp
  note th = breaking_score [of ?now example_parse ?i ?c id]
  from th h3 have ai: "ageMin ?now example_parse ?i = 99999" by blast
  from th h1 have le: "entry_score ?now example_parse ?i \<le> 201 / 10000000" by blast
  from th h1 have all: "\<forall>now' j s t. rss_pubDate j = Some s \<and> s \<noteq> [] \<and> example_parse s = Some t
                  \<and> \<bar>t\<bar> \<le> 8640000000000000 \<and> 2 * (now' - t) < 99999 * 60000
                \<longrightarrow> entry_score ?now example_parse ?i < entry_score now' example_parse j
                    \<and> (\<forall>url url' m.
                          (?now, url, ?i) \<in> set ?c \<and> (now', url', j) \<in> set ?c
                          \<and> m < length (api_breaking id example_parse ?c)
                          \<and> api_breaking id example_parse ?c ! m
                              = pushed id example_parse (?now, url, ?i)
                        \<longrightarrow> (\<exists>n<m. api_breaking id example_parse ?c ! n
                              = pushed id example_parse (now', url', j)))"
    by blast
  from all h2 have lt: "entry_score ?now example_parse ?i < entry_score ?now example_parse ?j"
    and rk: "\<forall>url url' m.
                (?now, url, ?i) \<in> set ?c \<and> (?now, url', ?j) \<in> set ?c
                \<and> m < length (api_breaking id example_parse ?c)
                \<and> api_breaking id example_parse ?c ! m = pushed id example_parse (?now, url, ?i)
              \<longrightarrow> (\<exists>n<m. api_breaking id example_parse ?c ! n
                    = pushed id example_parse (?now, url', ?j))"
    by blast+
  from rk h5 have rank: "\<forall>m. m < length (api_breaking id example_parse ?c)
                \<and> api_breaking id example_parse ?c ! m = pushed id example_parse (?now, ?u, ?i)
              \<longrightarrow> (\<exists>n<m. api_breaking id example_parse ?c ! n
                    = pushed id example_parse (?now, ?u, ?j))"
    by blast
  from breaking_score [of ?now example_parse ?j ?c id] h2
  have "\<bar>?now - 1699999940000\<bar> \<le> 2 ^ 53
      \<longrightarrow> ageMin ?now example_parse ?j = fl (of_int (?now - 1699999940000) / 60000)"
    by blast
  then have "ageMin ?now example_parse ?j = fl 1" by simp
  then have aj: "ageMin ?now example_parse ?j = 1" by (simp add: fl_examples)
  from breaking_score [of ?now example_parse ?k ?c id] h4
  have "ageMin ?now example_parse ?k = fl (fl (of_int ?now) / 60000)" by blast
  moreover have "fl (of_int ?now) = of_int ?now" by (rule fl_of_int) simp
  ultimately have "ageMin ?now example_parse ?k = fl (1700000000000 / 60000)" by simp
  also have "\<dots> = 7605671253333333 / 268435456" by (simp add: fl_eval)
  finally have ak: "ageMin ?now example_parse ?k = 7605671253333333 / 268435456" .
  have ev: "api_breaking id example_parse ?c
      = [pushed id example_parse (?now, ?u, ?j), pushed id example_parse (?now, ?u, ?i)]"
    using example_scores by (simp add: api_breaking_def pushed_def)
  then have "1 < length (api_breaking id example_parse ?c)
      \<and> api_breaking id example_parse ?c ! 1 = pushed id example_parse (?now, ?u, ?i)"
    by simp
  with rank have "\<exists>n<1. api_breaking id example_parse ?c ! n
      = pushed id example_parse (?now, ?u, ?j)"
    by blast
  then have first: "api_breaking id example_parse ?c ! 0 = pushed id example_parse (?now, ?u, ?j)"
    by simp
  from h1 h2 ai aj ak le lt first show ?thesis by blast
qed

text \<open>
  Near the end of the range of dates two ages a millisecond apart are the same
  double, so such entries tie where exact arithmetic would order them.
\<close>

lemma ages_tie_at_edge_of_date_range:
  "fl (fl (of_int (1700000000000 - (- 8639999999999999))) / 60000)
     = fl (fl (of_int (1700000000000 - (- 8639999999999998))) / 60000)"
proof -
  have "fl (of_int 8641699999999999) = of_int 8641699999999999" by (rule fl_of_int) simp
  moreover have "fl (of_int 8641699999999998) = of_int 8641699999999998" by (rule fl_of_int) simp
  moreover have "fl (8641699999999999 / 60000) = fl (8641699999999998 / 60000)"
    by (simp add: fl_eval)
  ultimately show ?thesis by simp
qed

end
